theory Spec2Isabelle
  imports Complex_Main "HOL-Library.Char_ord" "HOL-Library.List_Lexorder" "HOL-Library.Log_Nat"
    "HOL-Library.Word"
begin

section \<open>Government ID verification: the pipeline of verificationService.ts\<close>

text \<open>
  A shallow embedding of \<^verbatim>\<open>src/services/verificationService.ts\<close>.

  Conventions of the model.
  \<^item> The numbers of the quality gate are IEEE 754 binary64 values, rounded after every
    operation as the source rounds them. Where the source reads past the end of an array
    (the value \<^verbatim>\<open>undefined\<close>, NaN in arithmetic), and where it divides zero by zero,
    the model says so with an option. The confidences, which come from the engines and
    are compared, capped and averaged, are \<^typ>\<open>real\<close> numbers.
  \<^item> A JavaScript string is a \<^typ>\<open>string\<close>; the text functions below are those of
    the source on ASCII text (code units below 128).
  \<^item> A promise that rejects, and a \<^verbatim>\<open>throw\<close>, is the left summand of a sum:
    \<open>Inl\<close> carries the thrown value, \<open>Inr\<close> the returned one.
  \<^item> The browser and the two engines (image decoding, the canvas, OpenCV, Tesseract,
    number formatting) are parameters: the record \<open>environment\<close> and the worker held
    by the service.
  \<^item> An \<^verbatim>\<open>async\<close> function is the function of its arguments that its awaits, taken
    one after the other, compute. Where two calls of \<^verbatim>\<open>verifyDocument\<close> are in
    flight together, each call is the list of its awaits and a schedule interleaves them.
\<close>

subsection \<open>Data model\<close>

text \<open>
  What a \<^verbatim>\<open>catch (error)\<close> can receive: an instance of \<^verbatim>\<open>Error\<close> with its
  message, or any other value (\<^verbatim>\<open>img.onerror = reject\<close> rejects with the DOM event).
\<close>

datatype thrown = Error string | NotAnError

text \<open>The interface \<^verbatim>\<open>VerificationResult\<close> of VerificationResults.tsx.\<close>

record templateMatchResult =
  tm_isMatch :: bool
  tm_confidence :: real
  tm_details :: string

record textExtractionResult =
  te_extractedLabels :: "string list"
  te_extractedData :: "string \<rightharpoonup> string"
  te_confidence :: real
  te_details :: string

record overallResult =
  ov_isValid :: bool
  ov_confidence :: real

record verificationResult =
  templateMatch :: templateMatchResult
  textExtraction :: textExtractionResult
  overall :: overallResult

text \<open>A loaded \<^verbatim>\<open>HTMLImageElement\<close>: the file it shows and its dimensions.\<close>

record 'f image =
  img_src :: 'f
  img_width :: nat
  img_height :: nat

text \<open>The \<^verbatim>\<open>data\<close> of Tesseract's \<^verbatim>\<open>recognize\<close>.\<close>

record ocr_data =
  ocr_text :: string
  ocr_confidence :: real

type_synonym byte = "8 word"

text \<open>
  The platform:
  \<^item> \<open>decodeImage\<close>: \<^verbatim>\<open>new Image()\<close> with \<^verbatim>\<open>onload\<close>/\<^verbatim>\<open>onerror\<close>;
  \<^item> \<open>canvasPixels image n\<close>: a canvas of \<open>n\<close> by \<open>n\<close>, \<^verbatim>\<open>drawImage\<close> of the image
    on all of it, and the \<^verbatim>\<open>data\<close> of \<^verbatim>\<open>getImageData\<close> (RGBA bytes, row-major);
  \<^item> \<open>cvMaxCorrelation\<close>: the two canvases at the given sizes, \<^verbatim>\<open>cv.imread\<close>,
    \<^verbatim>\<open>cvtColor\<close>, \<^verbatim>\<open>matchTemplate\<close> with TM\_CCOEFF\_NORMED and the
    \<^verbatim>\<open>maxVal\<close> of \<^verbatim>\<open>minMaxLoc\<close>;
  \<^item> \<open>toFixed d x\<close> and \<open>numToString n\<close>: the decimal text of a number.
\<close>

record 'f environment =
  decodeImage :: "'f \<Rightarrow> thrown + 'f image"
  canvasPixels :: "'f image \<Rightarrow> nat \<Rightarrow> thrown + byte list"
  cvMaxCorrelation :: "'f image \<Rightarrow> real \<times> real \<Rightarrow> 'f image \<Rightarrow> real \<times> real \<Rightarrow> thrown + real"
  toFixed :: "nat \<Rightarrow> real \<Rightarrow> string"
  numToString :: "nat \<Rightarrow> string"

text \<open>
  The two private fields of \<^verbatim>\<open>class VerificationService\<close>. The worker is what
  \<^verbatim>\<open>this.tesseractWorker.recognize\<close> answers; \<open>None\<close> is \<^verbatim>\<open>null\<close>.
\<close>

record 'f verificationService =
  tesseractWorker :: "('f \<Rightarrow> thrown + ocr_data) option"
  isOpenCVReady :: bool

subsection \<open>loadImageFromFile\<close>

definition loadImageFromFile :: "'f environment \<Rightarrow> 'f \<Rightarrow> thrown + 'f image" where
  "loadImageFromFile env file = decodeImage env file"

subsection \<open>The numbers of the quality gate\<close>

text \<open>
  The quality gate computes with IEEE 754 binary64 numbers, and the model rounds as they
  do. \<open>double x\<close> is the binary64 value nearest to the real \<open>x\<close>, a tie going to the
  even significand: with \<open>e = exponent x\<close>, the integer such that
  \<open>2 ^ e \<le> |x| < 2 ^ (e + 1)\<close>, the values near \<open>x\<close> are the multiples of
  \<open>2 ^ (e - 52)\<close>, and those of \<open>2 ^ (- 1074)\<close> when \<open>x\<close> is subnormal. A literal of
  the source is the \<open>double\<close> of its decimal value, and an operation of the source is the
  exact operation followed by one rounding. The values of the gate stay far below
  \<open>2 ^ 1024\<close>, so the overflow to \<^verbatim>\<open>Infinity\<close> is left out; the one quotient by zero
  is treated where it occurs, in \<open>edgeRatio\<close>.
\<close>

definition exponent :: "real \<Rightarrow> int" where
  "exponent x =
     (if 1 \<le> \<bar>x\<bar> then bitlen \<lfloor>\<bar>x\<bar>\<rfloor> - 1
      else (let k = bitlen \<lfloor>1 / \<bar>x\<bar>\<rfloor> - 1
            in if \<bar>x\<bar> = 2 powi (- k) then - k else - k - 1))"

definition roundEven :: "real \<Rightarrow> int" where
  "roundEven m =
     (let f = \<lfloor>m\<rfloor>; r = m - of_int f
      in if r < 1 / 2 then f else if 1 / 2 < r then f + 1 else if even f then f else f + 1)"

definition double :: "real \<Rightarrow> real" where
  "double x =
     (if x = 0 then 0
      else (let u = 2 powi (max (exponent x) (- 1022) - 52)
            in of_int (roundEven (x / u)) * u))"

definition fmul :: "real \<Rightarrow> real \<Rightarrow> real" where
  "fmul a b = double (a * b)"

definition fadd :: "real \<Rightarrow> real \<Rightarrow> real" where
  "fadd a b = double (a + b)"

definition fsub :: "real \<Rightarrow> real \<Rightarrow> real" where
  "fsub a b = double (a - b)"

definition fdiv :: "real \<Rightarrow> real \<Rightarrow> real" where
  "fdiv a b = double (a / b)"

subsection \<open>validateImageQuality\<close>

definition analysisSize :: nat where
  "analysisSize = 400"

definition threshold :: real where
  "threshold = 30"

text \<open>
  \<^verbatim>\<open>r * 0.299 + g * 0.587 + b * 0.114\<close>: three products and two sums, from left to
  right, each rounded.
\<close>

definition weightedSum :: "real \<Rightarrow> real \<Rightarrow> real \<Rightarrow> real" where
  "weightedSum r g b =
     fadd (fadd (fmul r (double 0.299)) (fmul g (double 0.587))) (fmul b (double 0.114))"

text \<open>
  \<^verbatim>\<open>data[i] * 0.299 + data[i + 1] * 0.587 + data[i + 2] * 0.114\<close>; \<open>None\<close> when one of
  the three reads is past the end of the array.
\<close>

definition luminance :: "byte list \<Rightarrow> nat \<Rightarrow> real option" where
  "luminance data i =
     (if i + 2 < length data
      then Some (weightedSum (real (unat (data ! i))) (real (unat (data ! (i + 1))))
                   (real (unat (data ! (i + 2)))))
      else None)"

text \<open>
  \<^verbatim>\<open>Math.abs(current - next) > threshold\<close> for the sample at \<open>i\<close> and the one at
  \<open>i + 4\<close>; a comparison with NaN is false.
\<close>

definition isEdge :: "byte list \<Rightarrow> nat \<Rightarrow> bool" where
  "isEdge data i =
     (case (luminance data i, luminance data (i + 4)) of
        (Some current, Some next) \<Rightarrow> \<bar>fsub current next\<bar> > threshold
      | _ \<Rightarrow> False)"

text \<open>\<^verbatim>\<open>for (let i = 0; i < data.length - 4; i += 4) { ... edgeStrength++ ... }\<close>\<close>

function edgeLoop :: "byte list \<Rightarrow> nat \<Rightarrow> nat \<Rightarrow> nat" where
  "edgeLoop data i edgeStrength =
     (if int i < int (length data) - 4
      then edgeLoop data (i + 4) (if isEdge data i then edgeStrength + 1 else edgeStrength)
      else edgeStrength)"
  by pat_completeness auto
termination
  by (relation "measure (\<lambda>(data, i, edgeStrength). length data - i)") auto

definition lowQualityMessage :: string where
  "lowQualityMessage =
     ''Image quality too low: Image appears to be blurry or lacks detail. Please upload a clearer image.''"

text \<open>
  \<^verbatim>\<open>edgeStrength / (data.length / 4)\<close>. On an empty buffer the loop does not run and the
  quotient is \<^verbatim>\<open>0 / 0\<close>, which is NaN: \<open>None\<close>. \<open>lowEdgeRatio\<close> is the test
  \<^verbatim>\<open>edgeRatio < 0.1\<close>, false on NaN.
\<close>

definition edgeRatio :: "byte list \<Rightarrow> real option" where
  "edgeRatio data =
     (if length data = 0 then None
      else Some (fdiv (real (edgeLoop data 0 0)) (fdiv (real (length data)) 4)))"

definition lowEdgeRatio :: "byte list \<Rightarrow> bool" where
  "lowEdgeRatio data = (case edgeRatio data of Some ratio \<Rightarrow> ratio < double 0.1 | None \<Rightarrow> False)"

definition validateImageQuality :: "'f environment \<Rightarrow> 'f \<Rightarrow> thrown + unit" where
  "validateImageQuality env imageFile =
     (case loadImageFromFile env imageFile of
        Inl e \<Rightarrow> Inl e
      | Inr img \<Rightarrow>
          (case canvasPixels env img analysisSize of
             Inl e \<Rightarrow> Inl e
           | Inr data \<Rightarrow>
               if lowEdgeRatio data then Inl (Error lowQualityMessage) else Inr ()))"

subsection \<open>performTemplateMatching\<close>

definition maxSize :: real where
  "maxSize = 800"

text \<open>
  The size an image is drawn at: at most \<open>maxSize\<close> on each side, the aspect ratio kept.
  (For an image of height 0 the source divides by zero; the model's quotient is then 0.)
\<close>

definition resizedSize :: "'f image \<Rightarrow> real \<times> real" where
  "resizedSize img =
     (let aspect = real (img_width img) / real (img_height img);
          width = min (real (img_width img)) maxSize;
          height = width / aspect
      in if height > maxSize then (maxSize * aspect, maxSize) else (width, height))"

definition matchDetails :: "'f environment \<Rightarrow> real \<Rightarrow> bool \<Rightarrow> string" where
  "matchDetails env confidence isMatch =
     ''Template matching confidence: '' @ toFixed env 1 (confidence * 100) @ ''%. '' @
     (if isMatch then ''Documents appear to match the expected layout.''
      else ''Documents do not match the expected layout pattern.'')"

text \<open>The body of the \<^verbatim>\<open>try\<close> block.\<close>

definition performTemplateMatching_try ::
  "'f environment \<Rightarrow> 'f image \<Rightarrow> 'f image \<Rightarrow> thrown + templateMatchResult" where
  "performTemplateMatching_try env sourceImg templateImg =
     (case cvMaxCorrelation env sourceImg (resizedSize sourceImg)
             templateImg (resizedSize templateImg) of
        Inl e \<Rightarrow> Inl e
      | Inr confidence \<Rightarrow>
          (let isMatch = confidence > 0.3
           in Inr \<lparr>tm_isMatch = isMatch, tm_confidence = confidence,
                   tm_details = matchDetails env confidence isMatch\<rparr>))"

definition templateFailure :: templateMatchResult where
  "templateFailure =
     \<lparr>tm_isMatch = False, tm_confidence = 0,
      tm_details = ''Template matching failed due to processing error.''\<rparr>"

text \<open>The \<^verbatim>\<open>try\<close> with its \<^verbatim>\<open>catch\<close>, which returns.\<close>

definition performTemplateMatching ::
  "'f environment \<Rightarrow> 'f image \<Rightarrow> 'f image \<Rightarrow> thrown + templateMatchResult" where
  "performTemplateMatching env sourceImg templateImg =
     (case performTemplateMatching_try env sourceImg templateImg of
        Inl e \<Rightarrow> Inr templateFailure
      | Inr r \<Rightarrow> Inr r)"

subsection \<open>Text functions of the extractor\<close>

text \<open>
  White space as \<^verbatim>\<open>String.prototype.trim\<close> and the class \<^verbatim>\<open>\s\<close> read it (tab, line
  feed, vertical tab, form feed, carriage return, space), and the line terminators that
  \<^verbatim>\<open>.\<close> does not match (line feed, carriage return).
\<close>

definition isWhiteSpace :: "char \<Rightarrow> bool" where
  "isWhiteSpace c = (c \<in> set [CHR 0x09, CHR 0x0A, CHR 0x0B, CHR 0x0C, CHR 0x0D, CHR '' ''])"

definition isLineTerminator :: "char \<Rightarrow> bool" where
  "isLineTerminator c = (c = CHR 0x0A \<or> c = CHR 0x0D)"

definition trim :: "string \<Rightarrow> string" where
  "trim s = rev (dropWhile isWhiteSpace (rev (dropWhile isWhiteSpace s)))"

definition toLowerChar :: "char \<Rightarrow> char" where
  "toLowerChar c =
     (if CHR ''A'' \<le> c \<and> c \<le> CHR ''Z'' then char_of (of_char c + 32 :: nat) else c)"

definition toLowerCase :: "string \<Rightarrow> string" where
  "toLowerCase s = map toLowerChar s"

text \<open>\<^verbatim>\<open>text.split('\n')\<close>: one more piece than there are line feeds.\<close>

fun splitLines :: "string \<Rightarrow> string list" where
  "splitLines [] = [[]]"
| "splitLines (c # cs) =
     (if c = CHR 0x0A then [] # splitLines cs
      else (case splitLines cs of [] \<Rightarrow> [[c]] | l # ls \<Rightarrow> (c # l) # ls))"

fun startsWith :: "string \<Rightarrow> string \<Rightarrow> bool" where
  "startsWith s [] = True"
| "startsWith [] (p # ps) = False"
| "startsWith (c # cs) (p # ps) = (c = p \<and> startsWith cs ps)"

text \<open>\<^verbatim>\<open>s.includes(p)\<close>\<close>

fun str_includes :: "string \<Rightarrow> string \<Rightarrow> bool" where
  "str_includes [] p = startsWith [] p"
| "str_includes (c # cs) p = (startsWith (c # cs) p \<or> str_includes cs p)"

text \<open>\<^verbatim>\<open>lines.indexOf(line)\<close>: the first index that holds the element, or -1.\<close>

fun indexOf :: "'a list \<Rightarrow> 'a \<Rightarrow> int" where
  "indexOf [] x = - 1"
| "indexOf (y # ys) x =
     (if y = x then 0 else (let r = indexOf ys x in if r < 0 then - 1 else r + 1))"

text \<open>
  The regular expression \<^verbatim>\<open>new RegExp(`${pattern}[:\\s]*(.+)`, 'i')\<close>, for a pattern of
  letters and spaces, and group 1 of \<^verbatim>\<open>line.match(regex)\<close>.

  \<open>captureFrom rest j\<close> is the backtracking of the greedy \<^verbatim>\<open>[:\s]*\<close> once it holds \<open>j\<close>
  characters of \<open>rest\<close>: the group \<^verbatim>\<open>(.+)\<close> takes every character up to the next line
  terminator; when it finds none, the class gives one character back.
  \<open>matchHere\<close> is the match at the start of the string, \<open>regexMatch\<close> the leftmost one.
\<close>

definition regexClass :: "char \<Rightarrow> bool" where
  "regexClass c = (c = CHR '':'' \<or> isWhiteSpace c)"

fun captureFrom :: "string \<Rightarrow> nat \<Rightarrow> string option" where
  "captureFrom rest 0 =
     (let captured = takeWhile (\<lambda>c. \<not> isLineTerminator c) rest
      in if captured \<noteq> [] then Some captured else None)"
| "captureFrom rest (Suc j) =
     (let captured = takeWhile (\<lambda>c. \<not> isLineTerminator c) (drop (Suc j) rest)
      in if captured \<noteq> [] then Some captured else captureFrom rest j)"

definition matchHere :: "string \<Rightarrow> string \<Rightarrow> string option" where
  "matchHere pattern s =
     (if startsWith (toLowerCase s) (toLowerCase pattern)
      then (let rest = drop (length pattern) s
            in captureFrom rest (length (takeWhile regexClass rest)))
      else None)"

fun regexMatch :: "string \<Rightarrow> string \<Rightarrow> string option" where
  "regexMatch pattern [] = matchHere pattern []"
| "regexMatch pattern (c # cs) =
     (case matchHere pattern (c # cs) of
        Some captured \<Rightarrow> Some captured
      | None \<Rightarrow> regexMatch pattern cs)"

subsection \<open>extractTextLabels\<close>

definition labelPatterns :: "(string \<times> string list) list" where
  "labelPatterns =
     [(''Name'', [''name'', ''first name'', ''last name'', ''full name'']),
      (''Date of Birth'', [''date of birth'', ''dob'', ''birth date'', ''born'']),
      (''ID Number'', [''id number'', ''license number'', ''document number'', ''dl'']),
      (''Address'', [''address'', ''street'', ''residence'']),
      (''City'', [''city'']),
      (''State'', [''state'', ''province'']),
      (''ZIP Code'', [''zip'', ''postal code'', ''zip code'']),
      (''Sex'', [''sex'', ''gender'']),
      (''Height'', [''height'', ''ht'']),
      (''Weight'', [''weight'', ''wt'']),
      (''Issue Date'', [''issue date'', ''issued'', ''iss'']),
      (''Expiration'', [''expiration date'', ''expires'', ''exp'']),
      (''Class'', [''class'', ''license class''])]"

text \<open>
  The \<^verbatim>\<open>else\<close> branch: \<^verbatim>\<open>lineIndex = lines.indexOf(line)\<close>, and the line after that
  index when there is one.
\<close>

definition nextLineValue ::
  "string list \<Rightarrow> string \<Rightarrow> string \<Rightarrow> (string \<rightharpoonup> string) \<Rightarrow> (string \<rightharpoonup> string)" where
  "nextLineValue lines line label extractedData =
     (let lineIndex = indexOf lines line
      in if lineIndex < int (length lines) - 1
         then (let nextLine = trim (lines ! nat (lineIndex + 1))
               in if nextLine \<noteq> [] \<and> length nextLine > 0
                  then extractedData(label \<mapsto> nextLine) else extractedData)
         else extractedData)"

text \<open>
  What follows \<^verbatim>\<open>foundLabels.push(label)\<close>: \<^verbatim>\<open>if (match && match[1])\<close> with its two
  branches.
\<close>

definition captureValue ::
  "string list \<Rightarrow> string \<Rightarrow> string \<Rightarrow> string \<Rightarrow> (string \<rightharpoonup> string) \<Rightarrow> (string \<rightharpoonup> string)" where
  "captureValue lines line label pattern extractedData =
     (case regexMatch pattern line of
        None \<Rightarrow> nextLineValue lines line label extractedData
      | Some captured \<Rightarrow>
          if captured \<noteq> [] then extractedData(label \<mapsto> trim captured)
          else nextLineValue lines line label extractedData)"

type_synonym extraction = "string list \<times> (string \<rightharpoonup> string)"

text \<open>\<^verbatim>\<open>for (const pattern of patterns)\<close>, left at the first pattern the line includes.\<close>

fun scanPatterns ::
  "string list \<Rightarrow> string \<Rightarrow> string \<Rightarrow> string \<Rightarrow> string list \<Rightarrow> extraction \<Rightarrow> extraction" where
  "scanPatterns lines line lowerLine label [] acc = acc"
| "scanPatterns lines line lowerLine label (pattern # patterns) (foundLabels, extractedData) =
     (if str_includes lowerLine pattern
      then (foundLabels @ [label], captureValue lines line label pattern extractedData)
      else scanPatterns lines line lowerLine label patterns (foundLabels, extractedData))"

text \<open>\<^verbatim>\<open>for (const { label, patterns } of labelPatterns)\<close>\<close>

fun scanLabels ::
  "string list \<Rightarrow> string \<Rightarrow> string \<Rightarrow> (string \<times> string list) list \<Rightarrow> extraction \<Rightarrow> extraction" where
  "scanLabels lines line lowerLine [] acc = acc"
| "scanLabels lines line lowerLine ((label, patterns) # rest) acc =
     scanLabels lines line lowerLine rest (scanPatterns lines line lowerLine label patterns acc)"

text \<open>\<^verbatim>\<open>for (const line of lines)\<close>; \<open>lines\<close> is the whole array, \<open>todo\<close> what is left of it.\<close>

fun scanLines :: "string list \<Rightarrow> string list \<Rightarrow> extraction \<Rightarrow> extraction" where
  "scanLines lines [] acc = acc"
| "scanLines lines (line # todo) acc =
     scanLines lines todo (scanLabels lines line (trim (toLowerCase line)) labelPatterns acc)"

text \<open>
  \<^verbatim>\<open>[...new Set(foundLabels)]\<close>: each label once, at its first place.
\<close>

definition uniq :: "'a list \<Rightarrow> 'a list" where
  "uniq xs = rev (remdups (rev xs))"

text \<open>\<^verbatim>\<open>extractedText.split('\n').filter(line => line.trim().length > 0)\<close>\<close>

definition textLines :: "string \<Rightarrow> string list" where
  "textLines extractedText = filter (\<lambda>line. length (trim line) > 0) (splitLines extractedText)"

definition extractionDetails :: "'f environment \<Rightarrow> ocr_data \<Rightarrow> string list \<Rightarrow> string" where
  "extractionDetails env data uniqueLabels =
     ''OCR extracted '' @ numToString env (length (ocr_text data)) @ '' characters with '' @
     toFixed env 1 (ocr_confidence data) @ ''% confidence. Found '' @
     numToString env (length uniqueLabels) @ '' document field labels with values.''"

text \<open>What the \<^verbatim>\<open>try\<close> block computes from the recognised \<open>data\<close>.\<close>

definition extractFromData :: "'f environment \<Rightarrow> ocr_data \<Rightarrow> textExtractionResult" where
  "extractFromData env data =
     (let lines = textLines (ocr_text data);
          (foundLabels, extractedData) = scanLines lines lines ([], Map.empty);
          uniqueLabels = sort (uniq foundLabels);
          confidence = min (ocr_confidence data / 100) 1
      in \<lparr>te_extractedLabels = uniqueLabels, te_extractedData = extractedData,
          te_confidence = confidence,
          te_details = extractionDetails env data uniqueLabels\<rparr>)"

text \<open>
  The body of the \<^verbatim>\<open>try\<close> block. With no worker, \<^verbatim>\<open>this.tesseractWorker.recognize\<close>
  throws a TypeError.
\<close>

definition extractTextLabels_try ::
  "'f environment \<Rightarrow> 'f verificationService \<Rightarrow> 'f \<Rightarrow> thrown + textExtractionResult" where
  "extractTextLabels_try env svc imageFile =
     (case tesseractWorker svc of
        None \<Rightarrow> Inl (Error ''Cannot read properties of null'')
      | Some recognize \<Rightarrow>
          (case recognize imageFile of
             Inl e \<Rightarrow> Inl e
           | Inr data \<Rightarrow> Inr (extractFromData env data)))"

definition extractionFailure :: textExtractionResult where
  "extractionFailure =
     \<lparr>te_extractedLabels = [], te_extractedData = Map.empty, te_confidence = 0,
      te_details = ''Text extraction failed due to OCR processing error.''\<rparr>"

definition extractTextLabels ::
  "'f environment \<Rightarrow> 'f verificationService \<Rightarrow> 'f \<Rightarrow> thrown + textExtractionResult" where
  "extractTextLabels env svc imageFile =
     (case extractTextLabels_try env svc imageFile of
        Inl e \<Rightarrow> Inr extractionFailure
      | Inr r \<Rightarrow> Inr r)"

subsection \<open>verifyDocument\<close>

text \<open>
  A progress notification is the pair of arguments of one call of \<^verbatim>\<open>onProgress\<close>.
  \<^verbatim>\<open>onProgress?.(stage, progress)\<close> calls the callback when the caller passed one
  (\<open>onProgress\<close> is \<open>True\<close>) and does nothing otherwise. The callback is the
  caller's; the model takes it to return.
\<close>

type_synonym progress = "string \<times> nat"

definition onProgressCall :: "bool \<Rightarrow> string \<Rightarrow> nat \<Rightarrow> progress list" where
  "onProgressCall onProgress stage progress = (if onProgress then [(stage, progress)] else [])"

text \<open>\<^verbatim>\<open>const overall = { isValid: ..., confidence: ... }\<close>\<close>

definition overallOf :: "templateMatchResult \<Rightarrow> textExtractionResult \<Rightarrow> overallResult" where
  "overallOf templateResult textResult =
     \<lparr>ov_isValid = (tm_isMatch templateResult \<and> length (te_extractedLabels textResult) > 0),
      ov_confidence = (tm_confidence templateResult + te_confidence textResult) / 2\<rparr>"

text \<open>
  The body of the \<^verbatim>\<open>try\<close> block: the notifications made so far, and what the block
  throws or returns. An \<^verbatim>\<open>await\<close> of a rejected promise throws.
\<close>

definition verifyDocument_try ::
  "'f environment \<Rightarrow> 'f verificationService \<Rightarrow> 'f \<Rightarrow> 'f \<Rightarrow> bool
     \<Rightarrow> progress list \<times> (thrown + verificationResult)" where
  "verifyDocument_try env svc idImageFile referenceImageFile onProgress =
     (let n1 = onProgressCall onProgress ''Validating image quality...'' 5 in
      case validateImageQuality env idImageFile of
        Inl e \<Rightarrow> (n1, Inl e)
      | Inr u \<Rightarrow>
     (let n2 = n1 @ onProgressCall onProgress ''Loading images...'' 10 in
      case loadImageFromFile env idImageFile of
        Inl e \<Rightarrow> (n2, Inl e)
      | Inr idImage \<Rightarrow>
     (case loadImageFromFile env referenceImageFile of
        Inl e \<Rightarrow> (n2, Inl e)
      | Inr referenceImage \<Rightarrow>
     (let n3 = n2 @ onProgressCall onProgress ''Performing template matching...'' 30 in
      case performTemplateMatching env idImage referenceImage of
        Inl e \<Rightarrow> (n3, Inl e)
      | Inr templateResult \<Rightarrow>
     (let n4 = n3 @ onProgressCall onProgress ''Extracting text labels...'' 60 in
      case extractTextLabels env svc idImageFile of
        Inl e \<Rightarrow> (n4, Inl e)
      | Inr textResult \<Rightarrow>
     (let n5 = n4 @ onProgressCall onProgress ''Finalizing verification...'' 90;
          overall = overallOf templateResult textResult;
          n6 = n5 @ onProgressCall onProgress ''Verification complete'' 100
      in (n6, Inr \<lparr>templateMatch = templateResult, textExtraction = textResult,
                    overall = overall\<rparr>)))))))"

text \<open>\<^verbatim>\<open>error instanceof Error ? error.message : 'Unknown error'\<close>\<close>

definition errorMessage :: "thrown \<Rightarrow> string" where
  "errorMessage error = (case error of Error m \<Rightarrow> m | NotAnError \<Rightarrow> ''Unknown error'')"

text \<open>The check made on entry, before the \<^verbatim>\<open>try\<close>: what it throws, if it throws.\<close>

definition verifyDocument_guard :: "'f verificationService \<Rightarrow> thrown option" where
  "verifyDocument_guard svc =
     (if \<not> isOpenCVReady svc \<or> tesseractWorker svc = None
      then Some (Error ''Verification service not initialized'') else None)"

definition verifyDocument ::
  "'f environment \<Rightarrow> 'f verificationService \<Rightarrow> 'f \<Rightarrow> 'f \<Rightarrow> bool
     \<Rightarrow> progress list \<times> (thrown + verificationResult)" where
  "verifyDocument env svc idImageFile referenceImageFile onProgress =
     (case verifyDocument_guard svc of
        Some e \<Rightarrow> ([], Inl e)
      | None \<Rightarrow>
          (case verifyDocument_try env svc idImageFile referenceImageFile onProgress of
             (notes, Inl error) \<Rightarrow>
               (notes, Inl (Error (''Verification failed: '' @ errorMessage error)))
           | (notes, Inr r) \<Rightarrow> (notes, Inr r)))"

subsection \<open>Calls in flight\<close>

text \<open>
  An \<^verbatim>\<open>async\<close> function runs up to its first \<^verbatim>\<open>await\<close> when it is called, and each
  time the promise it awaits settles it runs up to the next one. A call of
  \<^verbatim>\<open>verifyDocument\<close> in flight is the arguments it was given, the events it has made
  so far and the await at which it stands. The events are the calls of the progress
  callback and of the stages, in the order in which the function makes them, and the
  statement that computes \<^verbatim>\<open>overall\<close>.
\<close>

datatype 'f event =
    OnProgress string nat
  | ValidateImageQuality 'f
  | LoadImageFromFile 'f
  | PerformTemplateMatching "'f image" "'f image"
  | ExtractTextLabels 'f
  | ComputeOverall templateMatchResult textExtractionResult

text \<open>
  The awaits of lines 81 to 97, each with the locals that the rest of the function
  reads, and the promise of the call once it has settled.
\<close>

datatype 'f pending =
    AwaitQuality
  | AwaitIdImage
  | AwaitReferenceImage "'f image"
  | AwaitMatching "'f image" "'f image"
  | AwaitExtraction templateMatchResult
  | Settled "thrown + verificationResult"

record 'f call =
  c_idImageFile :: 'f
  c_referenceImageFile :: 'f
  c_onProgress :: bool
  c_events :: "'f event list"
  c_pending :: "'f pending"

text \<open>
  \<^verbatim>\<open>onProgress?.(stage, progress)\<close>; the call of a stage whose promise is then awaited;
  the promise of the call settling; and the \<^verbatim>\<open>catch\<close> block.
\<close>

definition emit :: "'f call \<Rightarrow> 'f event \<Rightarrow> 'f call" where
  "emit c e = c\<lparr>c_events := c_events c @ [e]\<rparr>"

definition notify :: "'f call \<Rightarrow> string \<Rightarrow> nat \<Rightarrow> 'f call" where
  "notify c stage progress = (if c_onProgress c then emit c (OnProgress stage progress) else c)"

definition invoke :: "'f call \<Rightarrow> 'f event \<Rightarrow> 'f pending \<Rightarrow> 'f call" where
  "invoke c e p = (emit c e)\<lparr>c_pending := p\<rparr>"

definition settle :: "'f call \<Rightarrow> thrown + verificationResult \<Rightarrow> 'f call" where
  "settle c r = c\<lparr>c_pending := Settled r\<rparr>"

definition catchInTry :: "'f call \<Rightarrow> thrown \<Rightarrow> 'f call" where
  "catchInTry c error = settle c (Inl (Error (''Verification failed: '' @ errorMessage error)))"

text \<open>
  The call itself: the entry check, the first notification and the call of the quality
  gate. \<^verbatim>\<open>verifyDocument\<close> assigns to no field of the service, which a call hands on
  as it found it.
\<close>

definition verifyDocument_enter ::
  "'f verificationService \<Rightarrow> 'f \<Rightarrow> 'f \<Rightarrow> bool \<Rightarrow> 'f verificationService \<times> 'f call" where
  "verifyDocument_enter svc idImageFile referenceImageFile onProgress =
     (let c = \<lparr>c_idImageFile = idImageFile, c_referenceImageFile = referenceImageFile,
                c_onProgress = onProgress, c_events = [], c_pending = AwaitQuality\<rparr>
      in case verifyDocument_guard svc of
           Some e \<Rightarrow> (svc, settle c (Inl e))
         | None \<Rightarrow>
             (svc, invoke (notify c ''Validating image quality...'' 5)
                     (ValidateImageQuality idImageFile) AwaitQuality))"

text \<open>
  The turn on which the awaited promise settles: the outcome of the stage, and the
  function up to its next await. The engines are functions of their arguments, so the
  outcome of a stage is the same on whatever turn it is read. A settled call has nothing
  left to run.
\<close>

definition verifyDocument_resume ::
  "'f environment \<Rightarrow> 'f verificationService \<Rightarrow> 'f call \<Rightarrow> 'f verificationService \<times> 'f call" where
  "verifyDocument_resume env svc c =
     (case c_pending c of
        AwaitQuality \<Rightarrow>
          (case validateImageQuality env (c_idImageFile c) of
             Inl e \<Rightarrow> (svc, catchInTry c e)
           | Inr u \<Rightarrow>
               (svc, invoke (notify c ''Loading images...'' 10)
                       (LoadImageFromFile (c_idImageFile c)) AwaitIdImage))
      | AwaitIdImage \<Rightarrow>
          (case loadImageFromFile env (c_idImageFile c) of
             Inl e \<Rightarrow> (svc, catchInTry c e)
           | Inr idImage \<Rightarrow>
               (svc, invoke c (LoadImageFromFile (c_referenceImageFile c))
                       (AwaitReferenceImage idImage)))
      | AwaitReferenceImage idImage \<Rightarrow>
          (case loadImageFromFile env (c_referenceImageFile c) of
             Inl e \<Rightarrow> (svc, catchInTry c e)
           | Inr referenceImage \<Rightarrow>
               (svc, invoke (notify c ''Performing template matching...'' 30)
                       (PerformTemplateMatching idImage referenceImage)
                       (AwaitMatching idImage referenceImage)))
      | AwaitMatching idImage referenceImage \<Rightarrow>
          (case performTemplateMatching env idImage referenceImage of
             Inl e \<Rightarrow> (svc, catchInTry c e)
           | Inr templateResult \<Rightarrow>
               (svc, invoke (notify c ''Extracting text labels...'' 60)
                       (ExtractTextLabels (c_idImageFile c)) (AwaitExtraction templateResult)))
      | AwaitExtraction templateResult \<Rightarrow>
          (case extractTextLabels env svc (c_idImageFile c) of
             Inl e \<Rightarrow> (svc, catchInTry c e)
           | Inr textResult \<Rightarrow>
               (let c1 = notify c ''Finalizing verification...'' 90;
                    c2 = emit c1 (ComputeOverall templateResult textResult);
                    overall = overallOf templateResult textResult;
                    c3 = notify c2 ''Verification complete'' 100
                in (svc, settle c3 (Inr \<lparr>templateMatch = templateResult,
                                           textExtraction = textResult, overall = overall\<rparr>))))
      | Settled r \<Rightarrow> (svc, c))"

text \<open>
  \<open>resumes env n\<close> runs \<open>n\<close> turns of one call. Five turns settle a call:
  \<open>verifyDocument_alone\<close> is the call made and run with no other call in flight.
  \<open>progressOf\<close> keeps the notifications of a list of events.
\<close>

fun resumes ::
  "'f environment \<Rightarrow> nat \<Rightarrow> 'f verificationService \<times> 'f call \<Rightarrow> 'f verificationService \<times> 'f call" where
  "resumes env 0 st = st"
| "resumes env (Suc n) (svc, c) = resumes env n (verifyDocument_resume env svc c)"

definition verifyDocument_alone ::
  "'f environment \<Rightarrow> 'f verificationService \<Rightarrow> 'f \<Rightarrow> 'f \<Rightarrow> bool \<Rightarrow> 'f call" where
  "verifyDocument_alone env svc idImageFile referenceImageFile onProgress =
     snd (resumes env 5 (verifyDocument_enter svc idImageFile referenceImageFile onProgress))"

fun progressOf :: "'f event list \<Rightarrow> progress list" where
  "progressOf [] = []"
| "progressOf (OnProgress stage progress # es) = (stage, progress) # progressOf es"
| "progressOf (e # es) = progressOf es"

text \<open>
  Two calls in flight on one service. A schedule says, turn after turn, which of the two
  calls has its awaited promise settled; \<open>turnsOf t ts\<close> is the number of turns of \<open>t\<close>
  in the schedule \<open>ts\<close>.
\<close>

datatype turn = FirstCall | SecondCall

fun interleave ::
  "'f environment \<Rightarrow> turn list \<Rightarrow> 'f verificationService \<times> 'f call \<times> 'f call
     \<Rightarrow> 'f verificationService \<times> 'f call \<times> 'f call" where
  "interleave env [] st = st"
| "interleave env (FirstCall # ts) (svc, a, b) =
     (case verifyDocument_resume env svc a of (svc', a') \<Rightarrow> interleave env ts (svc', a', b))"
| "interleave env (SecondCall # ts) (svc, a, b) =
     (case verifyDocument_resume env svc b of (svc', b') \<Rightarrow> interleave env ts (svc', a, b'))"

definition turnsOf :: "turn \<Rightarrow> turn list \<Rightarrow> nat" where
  "turnsOf t ts = length (filter (\<lambda>u. u = t) ts)"

text \<open>The events of a call that returns a result, lines 78 to 107.\<close>

definition eventsOfRun :: "'f \<Rightarrow> 'f \<Rightarrow> 'f image \<Rightarrow> 'f image \<Rightarrow> templateMatchResult \<Rightarrow> textExtractionResult \<Rightarrow> 'f event list" where
  "eventsOfRun idImageFile referenceImageFile idImage referenceImage templateResult textResult =
     [OnProgress ''Validating image quality...'' 5, ValidateImageQuality idImageFile,
      OnProgress ''Loading images...'' 10, LoadImageFromFile idImageFile,
      LoadImageFromFile referenceImageFile,
      OnProgress ''Performing template matching...'' 30,
      PerformTemplateMatching idImage referenceImage,
      OnProgress ''Extracting text labels...'' 60, ExtractTextLabels idImageFile,
      OnProgress ''Finalizing verification...'' 90, ComputeOverall templateResult textResult,
      OnProgress ''Verification complete'' 100]"

subsection \<open>The edge loop as a count\<close>

text \<open>
  The loop looks at the sample at byte \<open>4 * j\<close> and the one after it, for every \<open>j\<close> below
  \<open>pairCount\<close>; \<open>edgeCount\<close> is the number of those \<open>j\<close> where the two differ by more
  than the threshold.
\<close>

definition pairCount :: "byte list \<Rightarrow> nat" where
  "pairCount data = (length data - 1) div 4"

definition edgeCount :: "byte list \<Rightarrow> nat" where
  "edgeCount data = length (filter (\<lambda>j. isEdge data (4 * j)) [0..<pairCount data])"

subsection \<open>The edge ratio in the words of the specification\<close>

text \<open>
  The specification counts the horizontally adjacent pairs of the analysis square: the
  samples \<open>(y, x)\<close> and \<open>(y, x + 1)\<close> of one row, and divides by the number of those pairs.
\<close>

definition horizontalPairs :: "(nat \<times> nat) list" where
  "horizontalPairs = List.product [0..<analysisSize] [0..<analysisSize - 1]"

definition horizontalEdgeCount :: "byte list \<Rightarrow> nat" where
  "horizontalEdgeCount data =
     length (filter (\<lambda>(y, x). isEdge data (4 * (y * analysisSize + x))) horizontalPairs)"

definition horizontalEdgeRatio :: "byte list \<Rightarrow> real" where
  "horizontalEdgeRatio data =
     fdiv (real (horizontalEdgeCount data)) (real (length horizontalPairs))"

text \<open>
  A flat-colour image: every sample has the red, green and blue of the first one.
  A checkerboard: every horizontally adjacent pair is an edge.
\<close>

definition flatColour :: "byte list \<Rightarrow> bool" where
  "flatColour data =
     (\<forall>j \<in> set [0..<length data div 4].
        data ! (4 * j) = data ! 0 \<and> data ! (4 * j + 1) = data ! 1 \<and> data ! (4 * j + 2) = data ! 2)"

definition checkerboard :: "byte list \<Rightarrow> bool" where
  "checkerboard data =
     (\<forall>(y, x) \<in> set horizontalPairs. isEdge data (4 * (y * analysisSize + x)))"

subsection \<open>Concrete inputs\<close>

text \<open>
  \<open>greyImage c n\<close> is the RGBA buffer of \<open>n\<close> opaque grey samples, sample \<open>j\<close> of level
  \<open>c j\<close>. \<open>boardImage\<close> is the 400 by 400 checkerboard of black and white samples,
  \<open>flatImage\<close> a flat grey square, \<open>topImage\<close> a square whose first 40 rows are a
  checkerboard and whose other rows are black, and \<open>stripedImage\<close> a square whose
  samples are of level 26 and 56 in turn. \<open>greyLuminance v\<close> is the luminance of a grey
  sample of level \<open>v\<close>.
\<close>

definition greyImage :: "(nat \<Rightarrow> byte) \<Rightarrow> nat \<Rightarrow> byte list" where
  "greyImage c n = concat (map (\<lambda>j. [c j, c j, c j, 255]) [0..<n])"

definition boardColour :: "nat \<Rightarrow> byte" where
  "boardColour j = (if even (j div 400 + j mod 400) then 0 else 255)"

definition boardImage :: "byte list" where
  "boardImage = greyImage boardColour 160000"

definition flatImage :: "byte list" where
  "flatImage = greyImage (\<lambda>j. 128) 160000"

definition topColour :: "nat \<Rightarrow> byte" where
  "topColour j = (if j div 400 < 40 \<and> odd (j div 400 + j mod 400) then 255 else 0)"

definition topImage :: "byte list" where
  "topImage = greyImage topColour 160000"

definition stripeColour :: "nat \<Rightarrow> byte" where
  "stripeColour j = (if even j then 26 else 56)"

definition stripedImage :: "byte list" where
  "stripedImage = greyImage stripeColour 160000"

definition greyLuminance :: "byte \<Rightarrow> real" where
  "greyLuminance v = weightedSum (real (unat v)) (real (unat v)) (real (unat v))"

text \<open>
  Stub engines: every file decodes to the same outcome, the canvas answers \<open>data\<close>,
  the correlation answers \<open>score\<close>, and the worker answers \<open>recognized\<close>.
\<close>

definition stubImage :: "unit image" where
  "stubImage = \<lparr>img_src = (), img_width = 400, img_height = 400\<rparr>"

definition stubEnv :: "thrown + unit image \<Rightarrow> byte list \<Rightarrow> thrown + real \<Rightarrow> unit environment" where
  "stubEnv decoded data score =
     \<lparr>decodeImage = (\<lambda>file. decoded), canvasPixels = (\<lambda>img n. Inr data),
      cvMaxCorrelation = (\<lambda>src srcSize tmpl tmplSize. score),
      toFixed = (\<lambda>digits x. ''?''), numToString = (\<lambda>n. ''?'')\<rparr>"

definition stubService :: "thrown + ocr_data \<Rightarrow> unit verificationService" where
  "stubService recognized = \<lparr>tesseractWorker = Some (\<lambda>file. recognized), isOpenCVReady = True\<rparr>"

text \<open>
  Recognised texts: the sample of three lines, its \<open>data\<close> read with confidence 90, a
  text in which the label line DOB stands twice, and the empty text. \<open>allNotes\<close> are the
  six notifications of a complete run.
\<close>

definition sampleText :: string where
  "sampleText = ''Name: John Smith\<newline>Date of Birth\<newline>01/01/1990''"

definition sampleData :: ocr_data where
  "sampleData = \<lparr>ocr_text = sampleText, ocr_confidence = 90\<rparr>"

definition allNotes :: "progress list" where
  "allNotes =
     [(''Validating image quality...'', 5), (''Loading images...'', 10),
      (''Performing template matching...'', 30), (''Extracting text labels...'', 60),
      (''Finalizing verification...'', 90), (''Verification complete'', 100)]"

definition duplicateText :: string where
  "duplicateText = ''DOB\<newline>01/01/1990\<newline>DOB\<newline>02/02/1992''"

definition emptyData :: ocr_data where
  "emptyData = \<lparr>ocr_text = [], ocr_confidence = 0\<rparr>"

section \<open>Properties\<close>

subsection \<open>Rounding\<close>

lemma roundEven_error: "\<bar>of_int (roundEven m) - m\<bar> \<le> 1 / 2"
proof -
  define f where "f = \<lfloor>m\<rfloor>"
  define r where "r = m - of_int f"
  have r: "0 \<le> r" "r < 1" unfolding r_def f_def by linarith+
  have m: "m = of_int f + r" unfolding r_def by simp
  have eq: "roundEven m
      = (if r < 1 / 2 then f else if 1 / 2 < r then f + 1 else if even f then f else f + 1)"
    unfolding roundEven_def Let_def f_def r_def ..
  show ?thesis
    unfolding eq using r m by (auto simp: abs_if)
qed

lemma exponent_lower:
  assumes "x \<noteq> 0"
  shows "2 powi (exponent x) \<le> \<bar>x\<bar>"
proof (cases "1 \<le> \<bar>x\<bar>")
  case True
  let ?n = "\<lfloor>\<bar>x\<bar>\<rfloor>"
  have n: "0 < ?n" using True by linarith
  then have b: "1 \<le> bitlen ?n" by (auto simp: bitlen_alt_def)
  have "(2::int) ^ nat (bitlen ?n - 1) \<le> ?n" using bitlen_bounds[OF n] ..
  then have "(2::real) ^ nat (bitlen ?n - 1) \<le> of_int ?n"
    by (metis of_int_le_iff of_int_numeral of_int_power)
  also have "\<dots> \<le> \<bar>x\<bar>" by linarith
  finally have "(2::real) ^ nat (bitlen ?n - 1) \<le> \<bar>x\<bar>" .
  moreover have "(2::real) powi (bitlen ?n - 1) = 2 ^ nat (bitlen ?n - 1)"
    using b by (simp add: power_int_def)
  ultimately show ?thesis
    using True by (simp add: exponent_def)
next
  case False
  let ?y = "1 / \<bar>x\<bar>"
  let ?n = "\<lfloor>?y\<rfloor>"
  let ?k = "bitlen ?n - 1"
  have x: "0 < \<bar>x\<bar>" "\<bar>x\<bar> < 1" using assms False by simp_all
  then have y: "1 < ?y" by simp
  then have n: "0 < ?n" by linarith
  then have b: "1 \<le> bitlen ?n" by (auto simp: bitlen_alt_def)
  have "?n < 2 ^ nat (bitlen ?n)" using bitlen_bounds[OF n] ..
  then have "?n + 1 \<le> 2 ^ nat (bitlen ?n)" by simp
  then have "of_int (?n + 1) \<le> (of_int (2 ^ nat (bitlen ?n)) :: real)"
    by (rule of_int_le_iff[THEN iffD2])
  then have "of_int ?n + 1 \<le> (2::real) ^ nat (bitlen ?n)" by simp
  moreover have "?y < of_int ?n + 1" by linarith
  ultimately have "?y < (2::real) ^ nat (bitlen ?n)" by linarith
  then have "1 < (2::real) ^ nat (bitlen ?n) * \<bar>x\<bar>"
    using x(1) by (simp add: pos_divide_less_eq)
  then have lt: "1 / (2::real) ^ nat (bitlen ?n) < \<bar>x\<bar>"
    by (simp add: pos_divide_less_eq mult.commute)
  have "(2::real) powi (- ?k - 1) = 1 / 2 ^ nat (bitlen ?n)"
  proof -
    have "- ?k - 1 = - bitlen ?n" by simp
    moreover have "(2::real) powi (- bitlen ?n) = 1 / 2 powi (bitlen ?n)"
      by (rule power_int_minus_divide)
    moreover have "(2::real) powi (bitlen ?n) = 2 ^ nat (bitlen ?n)"
      using b by (simp add: power_int_def)
    ultimately show ?thesis by simp
  qed
  with lt have low: "(2::real) powi (- ?k - 1) \<le> \<bar>x\<bar>" by simp
  show ?thesis
  proof (cases "\<bar>x\<bar> = 2 powi (- ?k)")
    case True
    then have "exponent x = - ?k" using False by (simp add: exponent_def Let_def)
    then show ?thesis using True by simp
  next
    case ne: False
    then have "exponent x = - ?k - 1" using False by (simp add: exponent_def Let_def)
    then show ?thesis using low by simp
  qed
qed

lemma double_zero: "double 0 = 0"
  by (simp add: double_def)

lemma double_error:
  assumes "2 powi (- 1022) \<le> \<bar>x\<bar>"
  shows "\<bar>double x - x\<bar> \<le> \<bar>x\<bar> / 2 ^ 53"
proof -
  have nz: "x \<noteq> 0" using assms
    by (metis abs_zero not_le zero_less_numeral zero_less_power_int)
  let ?e = "max (exponent x) (- 1022)"
  let ?u = "(2::real) powi (?e - 52)"
  have u: "0 < ?u" by simp
  have e: "(2::real) powi ?e \<le> \<bar>x\<bar>"
    using exponent_lower[OF nz] assms by (simp add: max_def)
  have d: "double x = of_int (roundEven (x / ?u)) * ?u"
    using nz by (simp add: double_def Let_def)
  have "double x - x = (of_int (roundEven (x / ?u)) - x / ?u) * ?u"
    unfolding d using u by (simp add: algebra_simps)
  then have "\<bar>double x - x\<bar> = \<bar>of_int (roundEven (x / ?u)) - x / ?u\<bar> * ?u"
    using u by (simp add: abs_mult)
  also have "\<dots> \<le> 1 / 2 * ?u"
    using roundEven_error[of "x / ?u"] u by (intro mult_right_mono) simp_all
  also have "1 / 2 * ?u = 2 powi ?e / 2 ^ 53"
  proof -
    have "(2::real) powi (?e - 52 + 52) = ?u * 2 powi 52"
      by (rule power_int_add) simp
    then have "(2::real) powi ?e = ?u * 2 ^ 52" by simp
    then show ?thesis by simp
  qed
  also have "\<dots> \<le> \<bar>x\<bar> / 2 ^ 53"
    using e by (intro divide_right_mono) simp_all
  finally show ?thesis .
qed

lemma double_tenth: "double 0.1 = 3602879701896397 / 36028797018963968"
  by code_simp

lemma fsub_self: "fsub x x = 0"
  by (simp add: fsub_def double_zero)

lemma tiny_le_sample: "(2::real) powi (- 1022) \<le> 1 / 1048576"
proof -
  have "(2::real) powi (- 1022) \<le> 2 powi (- 20)"
    by (rule power_int_increasing) simp_all
  also have "(2::real) powi (- 20) = 1 / 2 ^ 20"
    by (simp add: power_int_minus_divide)
  also have "\<dots> = 1 / 1048576" by simp
  finally show ?thesis .
qed

lemma low_ratio_count:
  assumes n: "0 < n" "n \<le> 1048576"
  shows "fdiv (real k) (real n) < double 0.1 \<longleftrightarrow> 10 * k < n"
proof (cases "k = 0")
  case True
  then show ?thesis using n by (simp add: fdiv_def double_zero double_tenth)
next
  case False
  define x where "x = real k / real n"
  have rn: "0 < real n" "real n \<le> 1048576" using n by simp_all
  have inv: "1 / 1048576 \<le> 1 / real n"
    using rn by (intro divide_left_mono) simp_all
  have "1 / real n \<le> x"
    unfolding x_def using False rn by (intro divide_right_mono) simp_all
  with inv have pos: "1 / 1048576 \<le> x" by linarith
  then have "2 powi (- 1022) \<le> \<bar>x\<bar>" using tiny_le_sample by linarith
  then have "\<bar>double x - x\<bar> \<le> \<bar>x\<bar> / 2 ^ 53" by (rule double_error)
  then have err: "\<bar>double x - x\<bar> \<le> x / 9007199254740992" using pos by simp
  have f: "fdiv (real k) (real n) = double x" by (simp add: fdiv_def x_def)
  consider (lt) "10 * k < n" | (eq) "10 * k = n" | (gt) "n < 10 * k" by linarith
  then show ?thesis
  proof cases
    case lt
    then have "10 * k + 1 \<le> n" by simp
    then have "real (10 * k + 1) \<le> real n" by (rule of_nat_mono)
    then have "10 * real k \<le> real n - 1" by simp
    then have "10 * real k / real n \<le> (real n - 1) / real n"
      using rn by (intro divide_right_mono) simp_all
    also have "(real n - 1) / real n = 1 - 1 / real n"
      using rn by (simp add: diff_divide_distrib)
    finally have "10 * x \<le> 1 - 1 / real n" by (simp add: x_def)
    with inv have "10 * x \<le> 1 - 1 / 1048576" by linarith
    with err have "double x < 3602879701896397 / 36028797018963968" by linarith
    then show ?thesis using lt unfolding f double_tenth by simp
  next
    case eq
    then have "real n = 10 * real k" by (metis of_nat_mult of_nat_numeral)
    then have xe: "x = 0.1" using False by (simp add: x_def)
    show ?thesis unfolding f xe using eq by simp
  next
    case gt
    then have "n + 1 \<le> 10 * k" by simp
    then have "real (n + 1) \<le> real (10 * k)" by (rule of_nat_mono)
    then have "real n + 1 \<le> 10 * real k" by simp
    then have "(real n + 1) / real n \<le> 10 * real k / real n"
      using rn by (intro divide_right_mono) simp_all
    moreover have "(real n + 1) / real n = 1 + 1 / real n"
      using rn by (simp add: add_divide_distrib)
    ultimately have "1 + 1 / real n \<le> 10 * x" by (simp add: x_def)
    with inv have "1 + 1 / 1048576 \<le> 10 * x" by linarith
    with err have "3602879701896397 / 36028797018963968 < double x" by linarith
    then show ?thesis using gt unfolding f double_tenth by simp
  qed
qed

lemma samples_quotient: "fdiv 640000 4 = 160000"
  by code_simp

lemma greyLuminance_values:
  "greyLuminance 0 = 0"
  "greyLuminance 255 = 255"
  "greyLuminance 26 = 7318349394477055 / 281474976710656"
  "greyLuminance 56 = 56"
  by code_simp+

lemma grey_edges:
  "threshold < \<bar>fsub (greyLuminance 0) (greyLuminance 255)\<bar>"
  "threshold < \<bar>fsub (greyLuminance 255) (greyLuminance 0)\<bar>"
  "threshold < \<bar>fsub (greyLuminance 26) (greyLuminance 56)\<bar>"
  "threshold < \<bar>fsub (greyLuminance 56) (greyLuminance 26)\<bar>"
  unfolding greyLuminance_values by code_simp+

subsection \<open>The edge loop\<close>

lemma edgeLoop_filter:
  "edgeLoop data (4 * k) acc
     = acc + length (filter (\<lambda>j. isEdge data (4 * j)) [k..<pairCount data])"
proof (induction "pairCount data - k" arbitrary: k acc)
  case 0
  then have le: "pairCount data \<le> k" by simp
  then have "\<not> int (4 * k) < int (length data) - 4"
    unfolding pairCount_def by linarith
  then have "edgeLoop data (4 * k) acc = acc"
    by (subst edgeLoop.simps) simp
  with le show ?case by simp
next
  case (Suc d)
  then have lt: "k < pairCount data" and d: "d = pairCount data - Suc k" by linarith+
  from lt have cond: "int (4 * k) < int (length data) - 4"
    unfolding pairCount_def by linarith
  have step: "edgeLoop data (4 * k) acc
      = edgeLoop data (4 * Suc k) (if isEdge data (4 * k) then acc + 1 else acc)"
    using cond by (subst edgeLoop.simps) (simp add: add.commute)
  have upt: "[k..<pairCount data] = k # [Suc k..<pairCount data]"
    using lt by (rule upt_conv_Cons)
  show ?case
    unfolding step Suc.hyps(1)[OF d] upt by simp
qed

lemma edgeLoop_edgeCount: "edgeLoop data 0 0 = edgeCount data"
  using edgeLoop_filter[of data 0 0] by (simp add: edgeCount_def)

lemma edgeCount_card:
  "edgeCount data = card {j. j < pairCount data \<and> isEdge data (4 * j)}"
proof -
  have "{j. j < pairCount data \<and> isEdge data (4 * j)}
        = set (filter (\<lambda>j. isEdge data (4 * j)) [0..<pairCount data])"
    by auto
  moreover have "card (set (filter (\<lambda>j. isEdge data (4 * j)) [0..<pairCount data]))
        = length (filter (\<lambda>j. isEdge data (4 * j)) [0..<pairCount data])"
    by (rule distinct_card) simp
  ultimately show ?thesis
    unfolding edgeCount_def by simp
qed

lemma length_greyImage: "length (greyImage c n) = 4 * n"
  by (induction n) (simp_all add: greyImage_def)

lemma greyImage_Suc: "greyImage c (Suc n) = greyImage c n @ [c n, c n, c n, 255]"
  by (simp add: greyImage_def)

lemma greyImage_nth:
  "j < n \<Longrightarrow> t < 3 \<Longrightarrow> greyImage c n ! (4 * j + t) = c j"
proof (induction n)
  case 0
  then show ?case by simp
next
  case (Suc n)
  show ?case
  proof (cases "j < n")
    case True
    then have "4 * j + t < length (greyImage c n)"
      using Suc.prems by (simp add: length_greyImage)
    then show ?thesis
      using Suc.IH[OF True Suc.prems(2)] by (simp add: greyImage_Suc nth_append)
  next
    case False
    then have j: "j = n" using Suc.prems by simp
    have "(greyImage c n @ [c n, c n, c n, 255]) ! (4 * n + t) = [c n, c n, c n, 255] ! t"
      by (simp add: nth_append length_greyImage)
    moreover have "[c n, c n, c n, 255] ! t = c n"
    proof -
      from Suc.prems(2) consider "t = 0" | "t = 1" | "t = 2" by linarith
      then show ?thesis by cases simp_all
    qed
    ultimately show ?thesis by (simp add: greyImage_Suc j)
  qed
qed

lemma luminance_greyImage:
  assumes "j < n"
  shows "luminance (greyImage c n) (4 * j) = Some (greyLuminance (c j))"
proof -
  have a: "greyImage c n ! (4 * j) = c j"
    using greyImage_nth[OF assms, of 0 c] by simp
  have b: "greyImage c n ! (4 * j + 1) = c j"
    using greyImage_nth[OF assms, of 1 c] by simp
  have d: "greyImage c n ! (4 * j + 2) = c j"
    using greyImage_nth[OF assms, of 2 c] by simp
  have "4 * j + 2 < length (greyImage c n)"
    using assms by (simp add: length_greyImage)
  then show ?thesis
    unfolding luminance_def greyLuminance_def using a b d by simp
qed

lemma isEdge_greyImage:
  assumes "Suc j < n"
  shows "isEdge (greyImage c n) (4 * j)
         \<longleftrightarrow> threshold < \<bar>fsub (greyLuminance (c j)) (greyLuminance (c (Suc j)))\<bar>"
proof -
  have "j < n" using assms by simp
  then have l1: "luminance (greyImage c n) (4 * j) = Some (greyLuminance (c j))"
    by (rule luminance_greyImage)
  have "luminance (greyImage c n) (4 * Suc j) = Some (greyLuminance (c (Suc j)))"
    using assms by (rule luminance_greyImage)
  then have l2: "luminance (greyImage c n) (4 * j + 4) = Some (greyLuminance (c (Suc j)))"
    by (simp add: add.commute)
  show ?thesis
    unfolding isEdge_def l1 l2 by simp
qed

lemma pairCount_greyImage: "pairCount (greyImage c n) = n - 1"
  unfolding pairCount_def length_greyImage by (cases n) simp_all

lemma edgeRatio_edgeCount:
  assumes "length data = 640000"
  shows "edgeRatio data = Some (fdiv (real (edgeCount data)) 160000)"
  unfolding edgeRatio_def edgeLoop_edgeCount assms by (simp add: samples_quotient)

lemma low_ratio_iff:
  assumes "length data = 640000"
  shows "lowEdgeRatio data \<longleftrightarrow> edgeCount data < 16000"
  unfolding lowEdgeRatio_def edgeRatio_edgeCount[OF assms]
  using low_ratio_count[of 160000 "edgeCount data"] by simp

lemma pair_index:
  fixes x y :: nat
  assumes "x < 400"
  shows "(y * 400 + x) div 400 = y" and "(y * 400 + x) mod 400 = x"
  using assms by simp_all

lemma length_horizontalPairs: "length horizontalPairs = 159600"
  unfolding horizontalPairs_def analysisSize_def length_product length_upt by simp

lemma product_append: "List.product (xs @ ys) zs = List.product xs zs @ List.product ys zs"
  by (induction xs) simp_all

lemma filter_length_ge:
  assumes "\<forall>p \<in> set ps. P p"
  shows "length ps \<le> length (filter P (ps @ qs))"
proof -
  have "filter P ps = ps" using assms by (rule filter_True)
  then show ?thesis by simp
qed

lemma pair_index_Suc:
  fixes x y :: nat
  assumes "x < 399"
  shows "Suc (y * 400 + x) div 400 = y" and "Suc (y * 400 + x) mod 400 = Suc x"
proof -
  have e: "Suc (y * 400 + x) = y * 400 + Suc x" by simp
  have "Suc x < 400" using assms by simp
  then show "Suc (y * 400 + x) div 400 = y" and "Suc (y * 400 + x) mod 400 = Suc x"
    unfolding e by (rule pair_index)+
qed

lemma topColour_horizontal:
  assumes "y < 40" "x < 399"
  shows "threshold < \<bar>fsub (greyLuminance (topColour (y * 400 + x)))
                           (greyLuminance (topColour (Suc (y * 400 + x))))\<bar>"
proof -
  have x: "x < 400" using assms by simp
  have "topColour (y * 400 + x) = (if odd (y + x) then 255 else 0)"
    unfolding topColour_def pair_index[OF x] using assms(1) by simp
  moreover have "topColour (Suc (y * 400 + x)) = (if odd (y + x) then 0 else 255)"
    unfolding topColour_def pair_index_Suc[OF assms(2)] using assms(1) by simp
  ultimately show ?thesis
    by (simp add: grey_edges)
qed

lemma length_image: "length (greyImage c 160000) = 640000"
  unfolding length_greyImage by simp

lemma pairCount_image: "pairCount (greyImage c 160000) = 159999"
  unfolding pairCount_greyImage by simp

lemma pairCount_640000:
  assumes "length data = 640000"
  shows "pairCount data = 159999"
  unfolding pairCount_def assms by simp

lemma set_horizontalPairs: "set horizontalPairs = {0..<400} \<times> {0..<399}"
  unfolding horizontalPairs_def analysisSize_def set_product set_upt by simp

lemma split_horizontalPairs:
  "horizontalPairs = List.product [0..<40] [0..<399] @ List.product [40..<400] [0..<399]"
proof -
  have "[0..<40 + 360] = [0..<40] @ [40..<40 + 360]"
    by (rule upt_add_eq_append) simp
  moreover have "(40::nat) + 360 = 400" by simp
  ultimately have "[0..<400] = [0..<40] @ [40..<400]"
    by (simp only:)
  moreover have "analysisSize - 1 = 399" by (simp add: analysisSize_def)
  ultimately show ?thesis
    unfolding horizontalPairs_def product_append[symmetric] by (simp only: analysisSize_def)
qed

lemma topImage_horizontal_edges:
  assumes "y < 40" "x < 399"
  shows "isEdge topImage (4 * (y * 400 + x))"
proof -
  have "Suc (y * 400 + x) < 160000" using assms by linarith
  then show ?thesis
    unfolding topImage_def by (simp only: isEdge_greyImage topColour_horizontal[OF assms])
qed

lemma horizontalEdgeCount_topImage: "15960 \<le> horizontalEdgeCount topImage"
proof -
  have "\<forall>p \<in> set (List.product [0..<40] [0..<399]).
          (\<lambda>(y, x). isEdge topImage (4 * (y * analysisSize + x))) p"
  proof
    fix p assume "p \<in> set (List.product [0..<40] [0..<399])"
    then obtain y x where p: "p = (y, x)" and yx: "y < 40" "x < 399"
      unfolding set_product set_upt by auto
    show "(\<lambda>(y, x). isEdge topImage (4 * (y * analysisSize + x))) p"
      unfolding p prod.case analysisSize_def using yx by (rule topImage_horizontal_edges)
  qed
  then have "length (List.product [0..<40] [0..<399]) \<le> horizontalEdgeCount topImage"
    unfolding horizontalEdgeCount_def split_horizontalPairs by (rule filter_length_ge)
  then show ?thesis
    unfolding length_product length_upt by simp
qed

lemma horizontalEdgeRatio_topImage: "\<not> horizontalEdgeRatio topImage < double 0.1"
  using horizontalEdgeCount_topImage low_ratio_count[of 159600 "horizontalEdgeCount topImage"]
  unfolding horizontalEdgeRatio_def length_horizontalPairs by simp

lemma topColour_far:
  assumes "16000 \<le> j"
  shows "topColour j = 0"
proof -
  have "\<not> j div 400 < 40" using assms by (simp add: div_less_iff_less_mult)
  then show ?thesis by (simp add: topColour_def)
qed

lemma topImage_no_edge_far:
  assumes "16000 \<le> j" "j < 159999"
  shows "\<not> isEdge topImage (4 * j)"
proof -
  have "Suc j < 160000" using assms by simp
  then have "isEdge topImage (4 * j)
      \<longleftrightarrow> threshold < \<bar>fsub (greyLuminance (topColour j)) (greyLuminance (topColour (Suc j)))\<bar>"
    unfolding topImage_def by (rule isEdge_greyImage)
  moreover have "topColour j = 0" "topColour (Suc j) = 0"
    using assms by (simp_all add: topColour_far)
  ultimately show ?thesis
    by (simp add: fsub_self threshold_def)
qed

lemma topImage_no_edge_399: "\<not> isEdge topImage (4 * 399)"
proof -
  have "Suc 399 < (160000::nat)" by simp
  then have "isEdge topImage (4 * 399)
      \<longleftrightarrow> threshold < \<bar>fsub (greyLuminance (topColour 399)) (greyLuminance (topColour (Suc 399)))\<bar>"
    unfolding topImage_def by (rule isEdge_greyImage)
  moreover have "topColour 399 = 255" "topColour (Suc 399) = 255"
    by (simp_all add: topColour_def)
  ultimately show ?thesis
    by (simp add: fsub_self threshold_def)
qed

lemma edgeCount_topImage: "edgeCount topImage < 16000"
proof -
  have sub: "{j. j < pairCount topImage \<and> isEdge topImage (4 * j)} \<subseteq> {..<16000} - {399}"
  proof
    fix j assume "j \<in> {j. j < pairCount topImage \<and> isEdge topImage (4 * j)}"
    then have j: "j < 159999" and e: "isEdge topImage (4 * j)"
      unfolding topImage_def pairCount_image by simp_all
    have "j < 16000" using topImage_no_edge_far[of j] j e by linarith
    moreover have "j \<noteq> 399" using topImage_no_edge_399 e by auto
    ultimately show "j \<in> {..<16000} - {399}" by simp
  qed
  have "card ({..<16000::nat} - {399}) = 15999" by simp
  then have "card {j. j < pairCount topImage \<and> isEdge topImage (4 * j)} \<le> 15999"
    using card_mono[OF _ sub] by simp
  then show ?thesis
    unfolding edgeCount_card by simp
qed

lemma validateImageQuality_data:
  assumes "loadImageFromFile env imageFile = Inr img"
      and "canvasPixels env img analysisSize = Inr data"
  shows "validateImageQuality env imageFile
         = (if lowEdgeRatio data then Inl (Error lowQualityMessage) else Inr ())"
  by (simp add: validateImageQuality_def assms)

lemma luminance_flat:
  assumes f: "flatColour data" and len: "length data = 640000" and j: "j < 160000"
  shows "luminance data (4 * j) = luminance data 0"
proof -
  have "(640000::nat) div 4 = 160000" by simp
  then have "j \<in> set [0..<length data div 4]"
    unfolding len set_upt using j by simp
  with f have eq: "data ! (4 * j) = data ! 0" "data ! (4 * j + 1) = data ! 1"
      "data ! (4 * j + 2) = data ! 2"
    unfolding flatColour_def by blast+
  have "4 * j + 2 < (640000::nat)" "0 + 2 < (640000::nat)" using j by simp_all
  then have r: "4 * j + 2 < length data" "0 + 2 < length data" unfolding len .
  have lj: "luminance data (4 * j)
      = Some (weightedSum (real (unat (data ! (4 * j)))) (real (unat (data ! (4 * j + 1))))
                (real (unat (data ! (4 * j + 2)))))"
    unfolding luminance_def using r(1) by simp
  have l0: "luminance data 0
      = Some (weightedSum (real (unat (data ! 0))) (real (unat (data ! 1)))
                (real (unat (data ! 2))))"
    unfolding luminance_def using r(2) by (simp add: numeral_2_eq_2)
  show ?thesis
    by (simp only: lj l0 eq)
qed

lemma luminance_defined:
  assumes len: "length data = 640000" and j: "j < 160000"
  shows "\<exists>l. luminance data (4 * j) = Some l"
proof -
  have "4 * j + 2 < (640000::nat)" using j by simp
  then have "4 * j + 2 < length data" unfolding len .
  then show ?thesis unfolding luminance_def by simp
qed

lemma edgeCount_flat:
  assumes f: "flatColour data" and len: "length data = 640000"
  shows "edgeCount data = 0"
proof -
  have "\<not> isEdge data (4 * j)" if j: "j < 159999" for j
  proof -
    have a: "luminance data (4 * j) = luminance data 0"
      using f len by (rule luminance_flat) (use j in simp)
    have "luminance data (4 * Suc j) = luminance data 0"
      using f len by (rule luminance_flat) (use j in simp)
    then have b: "luminance data (4 * j + 4) = luminance data 0"
      by (simp add: add.commute)
    obtain l where "luminance data 0 = Some l"
      using luminance_defined[OF len, of 0] by auto
    then show ?thesis
      unfolding isEdge_def a b by (simp add: threshold_def fsub_self)
  qed
  then have "filter (\<lambda>j. isEdge data (4 * j)) [0..<pairCount data] = []"
    unfolding pairCount_640000[OF len] filter_empty_conv set_upt by simp
  then show ?thesis
    unfolding edgeCount_def by simp
qed

lemma pair_index_inj: "inj_on (\<lambda>(y, x). y * 400 + x) ({0..<400::nat} \<times> {0..<399::nat})"
proof (rule inj_onI)
  fix p q :: "nat \<times> nat"
  assume p: "p \<in> {0..<400} \<times> {0..<399}" and q: "q \<in> {0..<400} \<times> {0..<399}"
    and eq: "(case p of (y, x) \<Rightarrow> y * 400 + x) = (case q of (y, x) \<Rightarrow> y * 400 + x)"
  obtain y x where pp: "p = (y, x)" by (cases p)
  obtain y' x' where qq: "q = (y', x')" by (cases q)
  have x: "x < 400" "x' < 400" using p q unfolding pp qq by simp_all
  have e: "y * 400 + x = y' * 400 + x'" using eq unfolding pp qq by simp
  have "y = y'" using pair_index(1)[OF x(1), of y] pair_index(1)[OF x(2), of y'] e by simp
  moreover have "x = x'" using pair_index(2)[OF x(1), of y] pair_index(2)[OF x(2), of y'] e by simp
  ultimately show "p = q" unfolding pp qq by simp
qed

lemma edgeCount_checkerboard:
  assumes c: "checkerboard data" and len: "length data = 640000"
  shows "159600 \<le> edgeCount data"
proof -
  let ?f = "\<lambda>(y, x). y * 400 + x"
  let ?S = "{0..<400::nat} \<times> {0..<399::nat}"
  let ?E = "{j. j < pairCount data \<and> isEdge data (4 * j)}"
  have sub: "?f ` ?S \<subseteq> ?E"
  proof
    fix j assume "j \<in> ?f ` ?S"
    then obtain y x where j: "j = y * 400 + x" and yx: "y < 400" "x < 399" by auto
    have "(y, x) \<in> set horizontalPairs" unfolding set_horizontalPairs using yx by simp
    with c have "isEdge data (4 * (y * analysisSize + x))"
      unfolding checkerboard_def by blast
    then have "isEdge data (4 * j)" unfolding j analysisSize_def .
    moreover have "j < 159999" unfolding j using yx by linarith
    ultimately show "j \<in> ?E" unfolding pairCount_640000[OF len] by simp
  qed
  have "card (?f ` ?S) = card ?S" by (rule card_image[OF pair_index_inj])
  also have "card ?S = 159600" unfolding card_cartesian_product card_atLeastLessThan by simp
  finally have "card (?f ` ?S) = 159600" .
  moreover have "card (?f ` ?S) \<le> card ?E" by (rule card_mono[OF _ sub]) simp
  ultimately show ?thesis unfolding edgeCount_card by simp
qed

lemma boardColour_horizontal:
  assumes "x < 399"
  shows "threshold < \<bar>fsub (greyLuminance (boardColour (y * 400 + x)))
                           (greyLuminance (boardColour (Suc (y * 400 + x))))\<bar>"
proof -
  have x: "x < 400" using assms by simp
  have "boardColour (y * 400 + x) = (if even (y + x) then 0 else 255)"
    unfolding boardColour_def pair_index[OF x] by simp
  moreover have "boardColour (Suc (y * 400 + x)) = (if even (y + x) then 255 else 0)"
    unfolding boardColour_def pair_index_Suc[OF assms] by simp
  ultimately show ?thesis
    by (simp add: grey_edges)
qed

lemma checkerboard_boardImage: "checkerboard boardImage"
  unfolding checkerboard_def
proof
  fix p assume "p \<in> set horizontalPairs"
  then obtain y x where p: "p = (y, x)" and yx: "y < 400" "x < 399"
    unfolding set_horizontalPairs by auto
  have "Suc (y * 400 + x) < 160000" using yx by linarith
  then have "isEdge boardImage (4 * (y * 400 + x))"
    unfolding boardImage_def
    by (simp only: isEdge_greyImage boardColour_horizontal[OF yx(2)])
  then show "case p of (y, x) \<Rightarrow> isEdge boardImage (4 * (y * analysisSize + x))"
    unfolding p prod.case analysisSize_def .
qed

lemma flatColour_flatImage: "flatColour flatImage"
  unfolding flatColour_def
proof
  fix j assume "j \<in> set [0..<length flatImage div 4]"
  then have j: "j < 160000"
    unfolding flatImage_def length_image set_upt by simp
  have z: "(0::nat) < 160000" by simp
  have "flatImage ! (4 * j + 0) = 128" "flatImage ! (4 * j + 1) = 128" "flatImage ! (4 * j + 2) = 128"
    unfolding flatImage_def using j by (simp_all only: greyImage_nth)
  moreover have "flatImage ! (4 * 0 + 0) = 128" "flatImage ! (4 * 0 + 1) = 128" "flatImage ! (4 * 0 + 2) = 128"
    unfolding flatImage_def using z by (simp_all only: greyImage_nth)
  ultimately show "flatImage ! (4 * j) = flatImage ! 0 \<and> flatImage ! (4 * j + 1) = flatImage ! 1
      \<and> flatImage ! (4 * j + 2) = flatImage ! 2"
    by (simp add: numeral_2_eq_2)
qed

lemma edgeRatio_boardImage: "\<not> lowEdgeRatio boardImage"
proof -
  have len: "length boardImage = 640000" unfolding boardImage_def by (rule length_image)
  have "159600 \<le> edgeCount boardImage"
    using checkerboard_boardImage len by (rule edgeCount_checkerboard)
  then show ?thesis unfolding low_ratio_iff[OF len] by simp
qed

lemma edgeRatio_flatImage: "lowEdgeRatio flatImage"
proof -
  have len: "length flatImage = 640000" unfolding flatImage_def by (rule length_image)
  have "edgeCount flatImage = 0"
    using flatColour_flatImage len by (rule edgeCount_flat)
  then show ?thesis unfolding low_ratio_iff[OF len] by simp
qed

lemma edgeRatio_topImage: "lowEdgeRatio topImage"
proof -
  have len: "length topImage = 640000" unfolding topImage_def by (rule length_image)
  show ?thesis unfolding low_ratio_iff[OF len] by (rule edgeCount_topImage)
qed



lemma stripedImage_edges:
  assumes "j < 159999"
  shows "isEdge stripedImage (4 * j)"
proof -
  have "Suc j < 160000" using assms by simp
  then show ?thesis
    unfolding stripedImage_def
    by (simp add: isEdge_greyImage stripeColour_def grey_edges)
qed

lemma edgeCount_stripedImage: "edgeCount stripedImage = 159999"
proof -
  have "filter (\<lambda>j. isEdge stripedImage (4 * j)) [0..<159999] = [0..<159999]"
    by (rule filter_True) (simp add: stripedImage_edges)
  then show ?thesis
    unfolding edgeCount_def stripedImage_def pairCount_image by simp
qed

lemma edgeRatio_stripedImage: "\<not> lowEdgeRatio stripedImage"
proof -
  have len: "length stripedImage = 640000" unfolding stripedImage_def by (rule length_image)
  show ?thesis unfolding low_ratio_iff[OF len] edgeCount_stripedImage by simp
qed

lemma low_ratio_pairs:
  "fdiv (real k) (real (160000::nat)) < double 0.1
     \<longleftrightarrow> fdiv (real k) (real (159999::nat)) < double 0.1"
proof -
  have a: "fdiv (real k) (real (160000::nat)) < double 0.1 \<longleftrightarrow> 10 * k < 160000"
    by (rule low_ratio_count) simp_all
  have b: "fdiv (real k) (real (159999::nat)) < double 0.1 \<longleftrightarrow> 10 * k < 159999"
    by (rule low_ratio_count) simp_all
  show ?thesis unfolding a b by presburger
qed

lemma edgeRatio_empty: "edgeRatio [] = None" "\<not> lowEdgeRatio []"
  by (simp_all add: edgeRatio_def lowEdgeRatio_def)

subsection \<open>The stub engines\<close>

lemma stubEnv_simps:
  "decodeImage (stubEnv decoded data score) file = decoded"
  "canvasPixels (stubEnv decoded data score) img n = Inr data"
  "cvMaxCorrelation (stubEnv decoded data score) src srcSize tmpl tmplSize = score"
  by (simp_all add: stubEnv_def)

lemma stubService_simps:
  "tesseractWorker (stubService recognized) = Some (\<lambda>file. recognized)"
  "isOpenCVReady (stubService recognized) = True"
  by (simp_all add: stubService_def)

lemma validate_stub:
  "validateImageQuality (stubEnv (Inr stubImage) data score) file
     = (if lowEdgeRatio data then Inl (Error lowQualityMessage) else Inr ())"
  by (rule validateImageQuality_data[where img = stubImage])
     (simp_all add: loadImageFromFile_def stubEnv_simps)

lemma square_size: "4 * analysisSize * analysisSize = 640000"
  and square_samples: "analysisSize * analysisSize = 160000"
  and square_pairs: "analysisSize * analysisSize - 1 = 159999"
  by (simp_all add: analysisSize_def)

subsection \<open>The pipeline\<close>

lemma performTemplateMatching_catch:
  "performTemplateMatching env sourceImg templateImg
     = Inr (case performTemplateMatching_try env sourceImg templateImg of
              Inl e \<Rightarrow> templateFailure | Inr r \<Rightarrow> r)"
  by (simp add: performTemplateMatching_def split: sum.split)

lemma extractTextLabels_catch:
  "extractTextLabels env svc imageFile
     = Inr (case extractTextLabels_try env svc imageFile of
              Inl e \<Rightarrow> extractionFailure | Inr r \<Rightarrow> r)"
  by (simp add: extractTextLabels_def split: sum.split)

lemma verifyDocument_try_Inr:
  assumes "verifyDocument_try env svc idImageFile referenceImageFile onProgress = (notes, Inr r)"
  shows "\<exists>idImg refImg templateResult textResult.
           validateImageQuality env idImageFile = Inr ()
         \<and> loadImageFromFile env idImageFile = Inr idImg
         \<and> loadImageFromFile env referenceImageFile = Inr refImg
         \<and> performTemplateMatching env idImg refImg = Inr templateResult
         \<and> extractTextLabels env svc idImageFile = Inr textResult
         \<and> r = \<lparr>templateMatch = templateResult, textExtraction = textResult,
                 overall = overallOf templateResult textResult\<rparr>
         \<and> notes = (if onProgress then allNotes else [])"
  using assms
  unfolding verifyDocument_try_def Let_def
  by (auto simp: onProgressCall_def allNotes_def split: sum.splits)

lemma verifyDocument_Inr:
  assumes "verifyDocument env svc idImageFile referenceImageFile onProgress = (notes, Inr r)"
  shows "verifyDocument_guard svc = None
       \<and> verifyDocument_try env svc idImageFile referenceImageFile onProgress = (notes, Inr r)"
  using assms unfolding verifyDocument_def
  by (auto split: option.splits prod.splits sum.splits)

lemma verifyDocument_run:
  assumes "verifyDocument_guard svc = None"
      and "validateImageQuality env idImageFile = Inr ()"
      and "loadImageFromFile env idImageFile = Inr idImg"
      and "loadImageFromFile env referenceImageFile = Inr refImg"
      and "performTemplateMatching env idImg refImg = Inr templateResult"
      and "extractTextLabels env svc idImageFile = Inr textResult"
  shows "verifyDocument env svc idImageFile referenceImageFile True
       = (allNotes, Inr \<lparr>templateMatch = templateResult, textExtraction = textResult,
                          overall = overallOf templateResult textResult\<rparr>)"
  unfolding verifyDocument_def verifyDocument_try_def Let_def
  by (simp add: assms onProgressCall_def allNotes_def)

lemma stub_guard: "verifyDocument_guard (stubService recognized) = None"
  by (simp add: verifyDocument_guard_def stubService_simps)

lemma stub_load: "loadImageFromFile (stubEnv decoded data score) file = decoded"
  by (simp add: loadImageFromFile_def stubEnv_simps)

lemma stub_run:
  assumes "performTemplateMatching (stubEnv (Inr stubImage) boardImage score) stubImage stubImage
           = Inr templateResult"
      and "extractTextLabels (stubEnv (Inr stubImage) boardImage score) (stubService recognized) ()
           = Inr textResult"
  shows "verifyDocument (stubEnv (Inr stubImage) boardImage score) (stubService recognized) () () True
       = (allNotes, Inr \<lparr>templateMatch = templateResult, textExtraction = textResult,
                          overall = overallOf templateResult textResult\<rparr>)"
proof -
  have "validateImageQuality (stubEnv (Inr stubImage) boardImage score) () = Inr ()"
    unfolding validate_stub using edgeRatio_boardImage by simp
  then show ?thesis
    using stub_guard stub_load assms by (intro verifyDocument_run) simp_all
qed

subsection \<open>The extractor on given texts\<close>

lemma extractFromData_fields:
  "te_extractedLabels (extractFromData env data)
     = sort (uniq (fst (scanLines (textLines (ocr_text data)) (textLines (ocr_text data))
                          ([], Map.empty))))"
  "te_extractedData (extractFromData env data)
     = snd (scanLines (textLines (ocr_text data)) (textLines (ocr_text data)) ([], Map.empty))"
  "te_confidence (extractFromData env data) = min (ocr_confidence data / 100) 1"
  by (simp_all add: extractFromData_def Let_def split_beta)

lemma extractTextLabels_recognized:
  assumes "tesseractWorker svc = Some recognize" and "recognize imageFile = Inr data"
  shows "extractTextLabels env svc imageFile = Inr (extractFromData env data)"
  by (simp add: extractTextLabels_catch extractTextLabels_try_def assms)

lemma sample_labels:
  "sort (uniq (fst (scanLines (textLines sampleText) (textLines sampleText) ([], Map.empty))))
     = [''Date of Birth'', ''Name'']"
  by code_simp

lemma sample_name:
  "snd (scanLines (textLines sampleText) (textLines sampleText) ([], Map.empty)) ''Name''
     = Some ''John Smith''"
  by code_simp

lemma sample_birth:
  "snd (scanLines (textLines sampleText) (textLines sampleText) ([], Map.empty)) ''Date of Birth''
     = Some ''01/01/1990''"
  by code_simp

lemma sample_lines:
  "textLines sampleText = [''Name: John Smith'', ''Date of Birth'', ''01/01/1990'']"
  by code_simp

lemma sample_no_inline_value: "regexMatch ''date of birth'' ''Date of Birth'' = None"
  by code_simp

lemma duplicate_lines:
  "textLines duplicateText = [''DOB'', ''01/01/1990'', ''DOB'', ''02/02/1992'']"
  by code_simp

lemma duplicate_birth:
  "snd (scanLines (textLines duplicateText) (textLines duplicateText) ([], Map.empty))
     ''Date of Birth'' = Some ''01/01/1990''"
  by code_simp

text \<open>
  A label line that ends with a colon: the expression gives the colon back to the
  capturing group, so the colon is recorded and the next line is not read.
\<close>

lemma colon_line_captures_colon:
  "te_extractedData (extractFromData env \<lparr>ocr_text = ''Name:\<newline>John Smith'', ocr_confidence = c\<rparr>)
     ''Name'' = Some '':''"
proof -
  have "snd (scanLines (textLines ''Name:\<newline>John Smith'') (textLines ''Name:\<newline>John Smith'')
          ([], Map.empty)) ''Name'' = Some '':''"
    by code_simp
  then show ?thesis
    unfolding extractFromData_fields by simp
qed

lemma stub_match:
  "performTemplateMatching (stubEnv decoded data (Inr score)) sourceImg templateImg
     = Inr \<lparr>tm_isMatch = score > 0.3, tm_confidence = score,
             tm_details = matchDetails (stubEnv decoded data (Inr score)) score (score > 0.3)\<rparr>"
  by (simp add: performTemplateMatching_catch performTemplateMatching_try_def stubEnv_simps Let_def)

lemma stub_extract:
  "extractTextLabels env (stubService (Inr data)) file = Inr (extractFromData env data)"
  by (rule extractTextLabels_recognized[where recognize = "\<lambda>file. Inr data"])
     (simp_all add: stubService_simps)

lemma sample_confidence: "te_confidence (extractFromData env sampleData) = 0.9"
  unfolding extractFromData_fields by (simp add: sampleData_def)

lemma sample_found: "te_extractedLabels (extractFromData env sampleData) = [''Date of Birth'', ''Name'']"
  unfolding extractFromData_fields using sample_labels by (simp add: sampleData_def)

lemma verifyDocument_notes_prefix:
  "\<exists>k. fst (verifyDocument env svc idImageFile referenceImageFile True) = take k allNotes"
proof -
  have t: "\<exists>k. fst (verifyDocument_try env svc idImageFile referenceImageFile True) = take k allNotes"
  proof -
    have "fst (verifyDocument_try env svc idImageFile referenceImageFile True)
          \<in> {take 1 allNotes, take 2 allNotes, take 3 allNotes, take 4 allNotes, take 6 allNotes}"
      unfolding verifyDocument_try_def Let_def
      by (simp add: onProgressCall_def allNotes_def split: sum.split)
    then show ?thesis by blast
  qed
  show ?thesis
  proof (cases "verifyDocument_guard svc")
    case None
    then have "fst (verifyDocument env svc idImageFile referenceImageFile True)
        = fst (verifyDocument_try env svc idImageFile referenceImageFile True)"
      unfolding verifyDocument_def by (simp split: prod.split sum.split)
    then show ?thesis using t by simp
  next
    case (Some e)
    then have "fst (verifyDocument env svc idImageFile referenceImageFile True) = take 0 allNotes"
      unfolding verifyDocument_def by simp
    then show ?thesis by blast
  qed
qed

subsection \<open>Failures of a started run\<close>

lemma verifyDocument_started:
  assumes "verifyDocument_guard svc = None"
  shows "verifyDocument env svc idImageFile referenceImageFile onProgress
     = (case verifyDocument_try env svc idImageFile referenceImageFile onProgress of
          (notes, Inl error) \<Rightarrow>
            (notes, Inl (Error (''Verification failed: '' @ errorMessage error)))
        | (notes, Inr r) \<Rightarrow> (notes, Inr r))"
  unfolding verifyDocument_def assms by (simp only: option.case)

lemma verifyDocument_try_low_quality:
  assumes "validateImageQuality env idImageFile = Inl e"
  shows "verifyDocument_try env svc idImageFile referenceImageFile onProgress
     = (onProgressCall onProgress ''Validating image quality...'' 5, Inl e)"
  unfolding verifyDocument_try_def Let_def assms by simp

subsection \<open>The confidences of the two stages\<close>

lemma tm_confidence_cases:
  assumes "performTemplateMatching env sourceImg templateImg = Inr t"
  shows "tm_confidence t = 0
       \<or> (\<exists>score. cvMaxCorrelation env sourceImg (resizedSize sourceImg)
                     templateImg (resizedSize templateImg) = Inr score
                  \<and> tm_confidence t = score)"
  using assms
  unfolding performTemplateMatching_def performTemplateMatching_try_def Let_def
  by (auto simp: templateFailure_def split: sum.splits)

lemma te_confidence_cases:
  assumes "extractTextLabels env svc imageFile = Inr x"
  shows "te_confidence x = 0
       \<or> (\<exists>recognize data. tesseractWorker svc = Some recognize \<and> recognize imageFile = Inr data
                  \<and> te_confidence x = min (ocr_confidence data / 100) 1)"
  using assms
  unfolding extractTextLabels_def extractTextLabels_try_def
  by (auto simp: extractionFailure_def extractFromData_fields split: sum.splits option.splits)

lemma empty_confidence: "te_confidence (extractFromData env emptyData) = 0"
  unfolding extractFromData_fields by (simp add: emptyData_def)

subsection \<open>Calls in flight\<close>

lemma progressOf_append: "progressOf (xs @ ys) = progressOf xs @ progressOf ys"
  by (induction xs rule: progressOf.induct) simp_all

lemma resume_service: "fst (verifyDocument_resume env svc c) = svc"
  by (simp add: verifyDocument_resume_def Let_def split: pending.split sum.split)

lemma enter_service: "fst (verifyDocument_enter svc idImageFile referenceImageFile onProgress) = svc"
  by (simp add: verifyDocument_enter_def Let_def split: option.split)

lemma resume_settled:
  assumes "c_pending c = Settled r"
  shows "verifyDocument_resume env svc c = (svc, c)"
  using assms by (simp add: verifyDocument_resume_def)

lemma alone_result:
  "c_pending (verifyDocument_alone env svc idImageFile referenceImageFile onProgress)
     = Settled (snd (verifyDocument env svc idImageFile referenceImageFile onProgress))
   \<and> progressOf (c_events (verifyDocument_alone env svc idImageFile referenceImageFile onProgress))
     = fst (verifyDocument env svc idImageFile referenceImageFile onProgress)"
  by (simp add: verifyDocument_alone_def verifyDocument_enter_def verifyDocument_resume_def
      verifyDocument_def verifyDocument_try_def eval_nat_numeral notify_def invoke_def settle_def
      emit_def
      catchInTry_def onProgressCall_def progressOf_append Let_def
      split: option.split sum.split)

lemma resume_eq: "verifyDocument_resume env svc c = (svc, snd (verifyDocument_resume env svc c))"
  using resume_service[of env svc c] by (metis prod.collapse)

lemma resumes_service: "fst (resumes env n (svc, c)) = svc"
proof (induction n arbitrary: c)
  case 0
  show ?case by simp
next
  case (Suc n)
  show ?case
    by (subst resumes.simps(2), subst resume_eq) (rule Suc.IH)
qed

lemma resumes_eq: "resumes env n (svc, c) = (svc, snd (resumes env n (svc, c)))"
  using resumes_service[of env n svc c] by (metis prod.collapse)

lemma resumes_add: "resumes env (m + n) st = resumes env n (resumes env m st)"
proof (induction m arbitrary: st)
  case 0
  show ?case by simp
next
  case (Suc m)
  obtain svc c where st: "st = (svc, c)" by (cases st)
  show ?case unfolding st by (simp add: Suc.IH)
qed

lemma resumes_settled:
  assumes "c_pending c = Settled r"
  shows "resumes env n (svc, c) = (svc, c)"
  by (induction n) (simp_all add: resume_settled[OF assms])

lemma resumes_stable:
  assumes "c_pending (snd (resumes env m (svc, c))) = Settled r" and "m \<le> n"
  shows "resumes env n (svc, c) = resumes env m (svc, c)"
proof -
  obtain d where n: "n = m + d" using assms(2) by (metis le_Suc_ex)
  have "resumes env n (svc, c) = resumes env d (resumes env m (svc, c))"
    unfolding n by (rule resumes_add)
  also have "\<dots> = resumes env d (svc, snd (resumes env m (svc, c)))"
    by (subst resumes_eq) simp
  also have "\<dots> = (svc, snd (resumes env m (svc, c)))"
    using assms(1) by (rule resumes_settled)
  also have "\<dots> = resumes env m (svc, c)"
    by (rule resumes_eq[symmetric])
  finally show ?thesis .
qed

lemma enter_eq:
  "verifyDocument_enter svc idImageFile referenceImageFile onProgress
     = (svc, snd (verifyDocument_enter svc idImageFile referenceImageFile onProgress))"
  using enter_service[of svc idImageFile referenceImageFile onProgress] by (metis prod.collapse)

lemma alone_eq:
  "resumes env 5 (verifyDocument_enter svc idImageFile referenceImageFile onProgress)
     = (svc, verifyDocument_alone env svc idImageFile referenceImageFile onProgress)"
  unfolding verifyDocument_alone_def by (subst enter_eq, subst resumes_eq) (simp add: enter_eq[symmetric])

lemma settled_is_alone:
  assumes "c_pending (snd (resumes env n (verifyDocument_enter svc idImageFile referenceImageFile onProgress)))
           = Settled r"
  shows "snd (resumes env n (verifyDocument_enter svc idImageFile referenceImageFile onProgress))
           = verifyDocument_alone env svc idImageFile referenceImageFile onProgress
       \<and> r = snd (verifyDocument env svc idImageFile referenceImageFile onProgress)"
proof -
  let ?e = "verifyDocument_enter svc idImageFile referenceImageFile onProgress"
  let ?c = "snd ?e"
  let ?alone = "verifyDocument_alone env svc idImageFile referenceImageFile onProgress"
  have e: "?e = (svc, ?c)" by (rule enter_eq)
  have al: "c_pending (snd (resumes env 5 (svc, ?c)))
      = Settled (snd (verifyDocument env svc idImageFile referenceImageFile onProgress))"
    using alone_result[of env svc idImageFile referenceImageFile onProgress]
    unfolding verifyDocument_alone_def e[symmetric] by simp
  have n: "c_pending (snd (resumes env n (svc, ?c))) = Settled r"
    using assms unfolding e[symmetric] .
  have same: "resumes env n (svc, ?c) = resumes env 5 (svc, ?c)"
  proof (cases "n \<le> 5")
    case True
    show ?thesis using resumes_stable[OF n True] by simp
  next
    case False
    then have "5 \<le> n" by simp
    with al show ?thesis by (rule resumes_stable)
  qed
  have "snd (resumes env n ?e) = ?alone"
    unfolding verifyDocument_alone_def using same unfolding e[symmetric] by simp
  moreover have "r = snd (verifyDocument env svc idImageFile referenceImageFile onProgress)"
    using n al unfolding same by simp
  ultimately show ?thesis by simp
qed

lemma enough_turns_settle:
  assumes "5 \<le> n"
  shows "snd (resumes env n (verifyDocument_enter svc idImageFile referenceImageFile onProgress))
           = verifyDocument_alone env svc idImageFile referenceImageFile onProgress"
proof -
  let ?e = "verifyDocument_enter svc idImageFile referenceImageFile onProgress"
  have e: "?e = (svc, snd ?e)" by (rule enter_eq)
  have al: "c_pending (snd (resumes env 5 (svc, snd ?e)))
      = Settled (snd (verifyDocument env svc idImageFile referenceImageFile onProgress))"
    using alone_result[of env svc idImageFile referenceImageFile onProgress]
    unfolding verifyDocument_alone_def e[symmetric] by simp
  have "resumes env n (svc, snd ?e) = resumes env 5 (svc, snd ?e)"
    using al assms by (rule resumes_stable)
  then show ?thesis
    unfolding verifyDocument_alone_def e[symmetric] by simp
qed

lemma interleave_resumes:
  "interleave env ts (svc, a, b)
     = (svc, snd (resumes env (turnsOf FirstCall ts) (svc, a)),
             snd (resumes env (turnsOf SecondCall ts) (svc, b)))"
proof (induction ts arbitrary: a b)
  case Nil
  show ?case by (simp add: turnsOf_def)
next
  case (Cons t ts)
  show ?case
  proof (cases t)
    case FirstCall
    obtain a' where r: "verifyDocument_resume env svc a = (svc, a')"
      using resume_eq by blast
    show ?thesis
      unfolding FirstCall by (simp add: r Cons.IH turnsOf_def)
  next
    case SecondCall
    obtain b' where r: "verifyDocument_resume env svc b = (svc, b')"
      using resume_eq by blast
    show ?thesis
      unfolding SecondCall by (simp add: r Cons.IH turnsOf_def)
  qed
qed

lemma running_guard:
  assumes "\<forall>r. c_pending (snd (resumes env k (verifyDocument_enter svc idImageFile referenceImageFile onProgress)))
               \<noteq> Settled r"
  shows "verifyDocument_guard svc = None"
proof (rule ccontr)
  assume "verifyDocument_guard svc \<noteq> None"
  then obtain e where g: "verifyDocument_guard svc = Some e" by auto
  let ?e = "verifyDocument_enter svc idImageFile referenceImageFile onProgress"
  have e: "?e = (svc, snd ?e)" by (rule enter_eq)
  have "c_pending (snd ?e) = Settled (Inl e)"
    by (simp add: verifyDocument_enter_def g settle_def)
  then have "resumes env k (svc, snd ?e) = (svc, snd ?e)" by (rule resumes_settled)
  then have "c_pending (snd (resumes env k ?e)) = Settled (Inl e)"
    unfolding e[symmetric] using \<open>c_pending (snd ?e) = Settled (Inl e)\<close> by simp
  with assms show False by blast
qed

lemma enter_admitted:
  assumes "verifyDocument_guard svc = None"
  shows "verifyDocument_enter svc idImageFile referenceImageFile onProgress
     = (svc, \<lparr>c_idImageFile = idImageFile, c_referenceImageFile = referenceImageFile,
               c_onProgress = onProgress,
               c_events = (if onProgress then [OnProgress ''Validating image quality...'' 5] else [])
                          @ [ValidateImageQuality idImageFile],
               c_pending = AwaitQuality\<rparr>)"
  by (simp add: verifyDocument_enter_def assms notify_def invoke_def emit_def)

lemma alone_events_run:
  assumes "verifyDocument_guard svc = None"
      and "validateImageQuality env idImageFile = Inr ()"
      and "loadImageFromFile env idImageFile = Inr idImg"
      and "loadImageFromFile env referenceImageFile = Inr refImg"
      and "performTemplateMatching env idImg refImg = Inr templateResult"
      and "extractTextLabels env svc idImageFile = Inr textResult"
  shows "c_events (verifyDocument_alone env svc idImageFile referenceImageFile True)
       = eventsOfRun idImageFile referenceImageFile idImg refImg templateResult textResult"
  by (simp add: verifyDocument_alone_def verifyDocument_enter_def verifyDocument_resume_def
      eval_nat_numeral notify_def invoke_def emit_def settle_def eventsOfRun_def assms)

lemma alone_events_quality:
  assumes "verifyDocument_guard svc = None"
      and "validateImageQuality env idImageFile = Inl e"
  shows "c_events (verifyDocument_alone env svc idImageFile referenceImageFile True)
       = [OnProgress ''Validating image quality...'' 5, ValidateImageQuality idImageFile]"
  by (simp add: verifyDocument_alone_def verifyDocument_enter_def verifyDocument_resume_def
      eval_nat_numeral notify_def invoke_def emit_def settle_def catchInTry_def assms)

lemma alone_events_prefix:
  "\<exists>k idImg refImg templateResult textResult.
     c_events (verifyDocument_alone env svc idImageFile referenceImageFile True)
       = take k (eventsOfRun idImageFile referenceImageFile idImg refImg templateResult textResult)"
proof (cases "verifyDocument_guard svc")
  case (Some e)
  then have "c_events (verifyDocument_alone env svc idImageFile referenceImageFile True) = []"
    by (simp add: verifyDocument_alone_def verifyDocument_enter_def verifyDocument_resume_def
        eval_nat_numeral settle_def)
  then show ?thesis by (intro exI[of _ 0]) simp
next
  case None
  note defs = verifyDocument_alone_def verifyDocument_enter_def verifyDocument_resume_def
    eval_nat_numeral notify_def invoke_def emit_def settle_def catchInTry_def eventsOfRun_def
  show ?thesis
  proof (cases "validateImageQuality env idImageFile")
    case (Inl e)
    show ?thesis by (intro exI[of _ 2]) (simp add: defs None Inl)
  next
    case q: (Inr u)
    show ?thesis
    proof (cases "loadImageFromFile env idImageFile")
      case (Inl e)
      show ?thesis by (intro exI[of _ 4]) (simp add: defs None q Inl)
    next
      case i: (Inr idImg)
      show ?thesis
      proof (cases "loadImageFromFile env referenceImageFile")
        case (Inl e)
        show ?thesis by (intro exI[of _ 5]) (simp add: defs None q i Inl)
      next
        case r: (Inr refImg)
        show ?thesis
        proof (cases "performTemplateMatching env idImg refImg")
          case (Inl e)
          show ?thesis
            by (intro exI[of _ 7] exI[of _ idImg] exI[of _ refImg]) (simp add: defs None q i r Inl)
        next
          case m: (Inr templateResult)
          show ?thesis
          proof (cases "extractTextLabels env svc idImageFile")
            case (Inl e)
            show ?thesis
              by (intro exI[of _ 9] exI[of _ idImg] exI[of _ refImg])
                 (simp add: defs None q i r m Inl)
          next
            case x: (Inr textResult)
            show ?thesis
              by (intro exI[of _ 12] exI[of _ idImg] exI[of _ refImg] exI[of _ templateResult]
                    exI[of _ textResult])
                 (simp add: defs None q i r m x)
          qed
        qed
      qed
    qed
  qed
qed

lemma notes_quality:
  assumes "verifyDocument_guard svc = None" and "validateImageQuality env idImageFile = Inl e"
  shows "fst (verifyDocument env svc idImageFile referenceImageFile True)
       = [(''Validating image quality...'', 5)]"
  unfolding verifyDocument_started[OF assms(1)] verifyDocument_try_low_quality[OF assms(2)]
  by (simp add: onProgressCall_def)

lemma notes_load:
  assumes "verifyDocument_guard svc = None" and "validateImageQuality env idImageFile = Inr ()"
      and "loadImageFromFile env idImageFile = Inl e \<or> loadImageFromFile env referenceImageFile = Inl e"
  shows "fst (verifyDocument env svc idImageFile referenceImageFile True)
       = [(''Validating image quality...'', 5), (''Loading images...'', 10)]"
  using assms(3)
  unfolding verifyDocument_started[OF assms(1)] verifyDocument_try_def Let_def assms(2)
  by (auto simp: onProgressCall_def split: sum.splits)

lemma stub_quality:
  "validateImageQuality (stubEnv (Inr stubImage) boardImage score) file = Inr ()"
  unfolding validate_stub using edgeRatio_boardImage by simp

subsection \<open>An invariant of the extraction loops\<close>

lemma nextLineValue_dom:
  "dom (nextLineValue lines line label extractedData) \<subseteq> insert label (dom extractedData)"
  by (auto simp: nextLineValue_def Let_def)

lemma captureValue_dom:
  "dom (captureValue lines line label pattern extractedData) \<subseteq> insert label (dom extractedData)"
  using nextLineValue_dom[of lines line label extractedData]
  by (auto simp: captureValue_def split: option.splits)

lemma scanPatterns_inv:
  assumes "dom extractedData \<subseteq> set foundLabels"
  shows "dom (snd (scanPatterns lines line lowerLine label patterns (foundLabels, extractedData)))
           \<subseteq> set (fst (scanPatterns lines line lowerLine label patterns (foundLabels, extractedData)))
       \<and> set (fst (scanPatterns lines line lowerLine label patterns (foundLabels, extractedData)))
           \<subseteq> insert label (set foundLabels)"
  using assms
proof (induction patterns)
  case Nil
  then show ?case by auto
next
  case (Cons pattern patterns)
  show ?case
  proof (cases "str_includes lowerLine pattern")
    case True
    then show ?thesis
      using captureValue_dom[of lines line label pattern extractedData] Cons.prems by auto
  next
    case False
    then show ?thesis using Cons by simp
  qed
qed

lemma scanLabels_inv:
  assumes "dom (snd acc) \<subseteq> set (fst acc)"
  shows "dom (snd (scanLabels lines line lowerLine table acc))
           \<subseteq> set (fst (scanLabels lines line lowerLine table acc))
       \<and> set (fst (scanLabels lines line lowerLine table acc))
           \<subseteq> set (fst acc) \<union> set (map fst table)"
  using assms
proof (induction table arbitrary: acc)
  case Nil
  then show ?case by simp
next
  case (Cons entry table)
  obtain label patterns where entry: "entry = (label, patterns)" by (cases entry)
  obtain foundLabels extractedData where acc: "acc = (foundLabels, extractedData)" by (cases acc)
  let ?acc = "scanPatterns lines line lowerLine label patterns (foundLabels, extractedData)"
  have p: "dom (snd ?acc) \<subseteq> set (fst ?acc) \<and> set (fst ?acc) \<subseteq> insert label (set foundLabels)"
    using Cons.prems unfolding acc by (intro scanPatterns_inv) simp
  then have "dom (snd (scanLabels lines line lowerLine table ?acc))
           \<subseteq> set (fst (scanLabels lines line lowerLine table ?acc))
       \<and> set (fst (scanLabels lines line lowerLine table ?acc))
           \<subseteq> set (fst ?acc) \<union> set (map fst table)"
    by (intro Cons.IH) simp
  then show ?case
    unfolding entry acc using p by auto
qed

lemma scanLines_inv:
  assumes "dom (snd acc) \<subseteq> set (fst acc)"
  shows "dom (snd (scanLines lines todo acc)) \<subseteq> set (fst (scanLines lines todo acc))
       \<and> set (fst (scanLines lines todo acc)) \<subseteq> set (fst acc) \<union> set (map fst labelPatterns)"
  using assms
proof (induction todo arbitrary: acc)
  case Nil
  then show ?case by simp
next
  case (Cons line todo)
  let ?acc = "scanLabels lines line (trim (toLowerCase line)) labelPatterns acc"
  have l: "dom (snd ?acc) \<subseteq> set (fst ?acc)
      \<and> set (fst ?acc) \<subseteq> set (fst acc) \<union> set (map fst labelPatterns)"
    using Cons.prems by (rule scanLabels_inv)
  then have "dom (snd (scanLines lines todo ?acc)) \<subseteq> set (fst (scanLines lines todo ?acc))
       \<and> set (fst (scanLines lines todo ?acc)) \<subseteq> set (fst ?acc) \<union> set (map fst labelPatterns)"
    by (intro Cons.IH) simp
  then show ?case
    using l by auto
qed

lemma set_uniq: "set (uniq xs) = set xs"
  by (simp add: uniq_def)

lemma distinct_uniq: "distinct (uniq xs)"
  by (simp add: uniq_def)

lemma extractFromData_inv:
  "dom (te_extractedData (extractFromData env data)) \<subseteq> set (te_extractedLabels (extractFromData env data))
   \<and> set (te_extractedLabels (extractFromData env data)) \<subseteq> set (map fst labelPatterns)
   \<and> distinct (te_extractedLabels (extractFromData env data))
   \<and> sorted (te_extractedLabels (extractFromData env data))"
proof -
  let ?lines = "textLines (ocr_text data)"
  have "dom (snd (scanLines ?lines ?lines ([], Map.empty)))
          \<subseteq> set (fst (scanLines ?lines ?lines ([], Map.empty)))
       \<and> set (fst (scanLines ?lines ?lines ([], Map.empty)))
          \<subseteq> set (fst ([] :: string list, Map.empty :: string \<rightharpoonup> string)) \<union> set (map fst labelPatterns)"
    by (rule scanLines_inv) simp
  then show ?thesis
    unfolding extractFromData_fields by (simp add: set_uniq distinct_uniq)
qed

lemma canonical_labels:
  "map fst labelPatterns
     = [''Name'', ''Date of Birth'', ''ID Number'', ''Address'', ''City'', ''State'', ''ZIP Code'',
        ''Sex'', ''Height'', ''Weight'', ''Issue Date'', ''Expiration'', ''Class'']"
  by (simp add: labelPatterns_def)

subsection \<open>The value capture on lines that are pairwise distinct\<close>

text \<open>
  When no line of the text occurs twice, \<^verbatim>\<open>lines.indexOf(line)\<close> is the index of the line
  at hand, and the capture does what its comment says: the value on the line itself when
  the regular expression finds one, else the next line, else nothing.
\<close>

lemma indexOf_lower: "- 1 \<le> indexOf xs x"
  by (induction xs) (auto simp: Let_def)

lemma indexOf_nth:
  assumes "distinct xs" and "i < length xs"
  shows "indexOf xs (xs ! i) = int i"
  using assms
proof (induction xs arbitrary: i)
  case Nil
  then show ?case by simp
next
  case (Cons y ys)
  show ?case
  proof (cases i)
    case 0
    then show ?thesis by simp
  next
    case (Suc k)
    then have k: "k < length ys" using Cons.prems by simp
    have "ys ! k \<in> set ys" using k by simp
    then have "y \<noteq> ys ! k" using Cons.prems by auto
    moreover have "indexOf ys (ys ! k) = int k"
      using Cons.prems k by (intro Cons.IH) simp_all
    ultimately show ?thesis
      unfolding Suc by (simp add: Let_def)
  qed
qed

lemma captureValue_inline:
  assumes "regexMatch pattern line = Some captured" and "captured \<noteq> []"
  shows "captureValue lines line label pattern extractedData
         = extractedData(label \<mapsto> trim captured)"
  using assms by (simp add: captureValue_def)

lemma captureValue_next_line:
  assumes "regexMatch pattern (lines ! i) = None"
      and "distinct lines" and "Suc i < length lines"
      and "trim (lines ! Suc i) \<noteq> []"
  shows "captureValue lines (lines ! i) label pattern extractedData
         = extractedData(label \<mapsto> trim (lines ! Suc i))"
proof -
  have "indexOf lines (lines ! i) = int i"
    using assms(2,3) by (intro indexOf_nth) simp_all
  then show ?thesis
    using assms by (simp add: captureValue_def nextLineValue_def Let_def nat_add_distrib)
qed

lemma captureValue_no_value:
  assumes "regexMatch pattern (lines ! i) = None"
      and "distinct lines" and "Suc i = length lines"
  shows "captureValue lines (lines ! i) label pattern extractedData = extractedData"
proof -
  have "indexOf lines (lines ! i) = int i"
    using assms(2,3) by (intro indexOf_nth) simp_all
  then show ?thesis
    using assms by (simp add: captureValue_def nextLineValue_def Let_def)
qed

lemma textLines_trim: "line \<in> set (textLines extractedText) \<Longrightarrow> trim line \<noteq> []"
  by (simp add: textLines_def)

section \<open>The claims\<close>

subsection \<open>C1: the verdict\<close>

text \<open>
  C1. The overall verdict is a function of the two stage results alone: it is valid
  exactly when the template matched and at least one label was extracted, and its
  confidence is the arithmetic mean of the two confidences. The \<open>overall\<close> of every
  result that \<open>verifyDocument\<close> returns is that function of the result's own
  \<open>templateMatch\<close> and \<open>textExtraction\<close>.
\<close>

theorem verdict_aggregation:
  "(ov_isValid (overallOf templateResult textResult)
      \<longleftrightarrow> tm_isMatch templateResult \<and> te_extractedLabels textResult \<noteq> [])
   \<and> ov_confidence (overallOf templateResult textResult)
       = (tm_confidence templateResult + te_confidence textResult) / 2
   \<and> (verifyDocument env svc idImageFile referenceImageFile onProgress = (notes, Inr r)
        \<longrightarrow> overall r = overallOf (templateMatch r) (textExtraction r)
          \<and> (ov_isValid (overall r)
               \<longleftrightarrow> tm_isMatch (templateMatch r) \<and> te_extractedLabels (textExtraction r) \<noteq> [])
          \<and> ov_confidence (overall r)
              = (tm_confidence (templateMatch r) + te_confidence (textExtraction r)) / 2)"
proof -
  have a: "ov_isValid (overallOf t x) \<longleftrightarrow> tm_isMatch t \<and> te_extractedLabels x \<noteq> []" for t x
    by (simp add: overallOf_def)
  have b: "ov_confidence (overallOf t x) = (tm_confidence t + te_confidence x) / 2" for t x
    by (simp add: overallOf_def)
  have c: "overall r = overallOf (templateMatch r) (textExtraction r)"
    if "verifyDocument env svc idImageFile referenceImageFile onProgress = (notes, Inr r)"
    using verifyDocument_try_Inr[OF verifyDocument_Inr[OF that, THEN conjunct2]] by auto
  show ?thesis
    using a b c by simp
qed

text \<open>A run on the stub engines: correlation 0.9, the sample text read with confidence 90.\<close>

theorem verdict_aggregation_witness:
  "\<exists>notes r. verifyDocument (stubEnv (Inr stubImage) boardImage (Inr 0.9))
                (stubService (Inr sampleData)) () () True = (notes, Inr r)
     \<and> overall r = overallOf (templateMatch r) (textExtraction r)
     \<and> tm_isMatch (templateMatch r)
     \<and> te_extractedLabels (textExtraction r) = [''Date of Birth'', ''Name'']
     \<and> ov_isValid (overall r)
     \<and> ov_confidence (overall r) = 0.9"
proof -
  let ?env = "stubEnv (Inr stubImage) boardImage (Inr 0.9)"
  let ?svc = "stubService (Inr sampleData)"
  let ?t = "\<lparr>tm_isMatch = (0.9::real) > 0.3, tm_confidence = 0.9,
             tm_details = matchDetails ?env 0.9 ((0.9::real) > 0.3)\<rparr>"
  let ?x = "extractFromData ?env sampleData"
  let ?r = "\<lparr>templateMatch = ?t, textExtraction = ?x, overall = overallOf ?t ?x\<rparr>"
  have run: "verifyDocument ?env ?svc () () True = (allNotes, Inr ?r)"
    using stub_match stub_extract by (rule stub_run)
  from verdict_aggregation[of ?t ?x ?env ?svc "()" "()" True allNotes ?r] run
  have agg: "overall ?r = overallOf (templateMatch ?r) (textExtraction ?r)"
    and valid: "ov_isValid (overall ?r)
       \<longleftrightarrow> tm_isMatch (templateMatch ?r) \<and> te_extractedLabels (textExtraction ?r) \<noteq> []"
    and conf: "ov_confidence (overall ?r)
       = (tm_confidence (templateMatch ?r) + te_confidence (textExtraction ?r)) / 2"
    by blast+
  have m: "tm_isMatch (templateMatch ?r)" by simp
  have l: "te_extractedLabels (textExtraction ?r) = [''Date of Birth'', ''Name'']"
    by (simp add: sample_found)
  have v: "ov_isValid (overall ?r)" unfolding valid using m l by simp
  have c: "ov_confidence (overall ?r) = 0.9" unfolding conf by (simp add: sample_confidence)
  show ?thesis using run agg m l v c by blast
qed

subsection \<open>C2: the range of the confidences\<close>

text \<open>
  C2, as amended. In every result of \<open>verifyDocument\<close>, when the worker answers an OCR
  confidence between 0 and 100 and OpenCV answers a correlation between -1 and 1:
  the confidence of the text extraction (the OCR confidence over 100, capped at 1) lies
  between 0 and 1; the confidence of the template match is the correlation as OpenCV
  gave it, or 0 after a failure, and lies between -1 and 1; the overall confidence lies
  between -1/2 and 1. When the correlation is never negative, the last two lie between 0
  and 1 as well.
\<close>

theorem confidence_ranges:
  assumes run: "verifyDocument env svc idImageFile referenceImageFile onProgress = (notes, Inr r)"
      and ocr: "\<forall>recognize data. tesseractWorker svc = Some recognize
                  \<and> recognize idImageFile = Inr data
                  \<longrightarrow> 0 \<le> ocr_confidence data \<and> ocr_confidence data \<le> 100"
      and cv: "\<forall>src srcSize tmpl tmplSize score.
                  cvMaxCorrelation env src srcSize tmpl tmplSize = Inr score
                  \<longrightarrow> - 1 \<le> score \<and> score \<le> 1"
  shows "0 \<le> te_confidence (textExtraction r) \<and> te_confidence (textExtraction r) \<le> 1
       \<and> - 1 \<le> tm_confidence (templateMatch r) \<and> tm_confidence (templateMatch r) \<le> 1
       \<and> - 1 / 2 \<le> ov_confidence (overall r) \<and> ov_confidence (overall r) \<le> 1
       \<and> ((\<forall>src srcSize tmpl tmplSize score.
               cvMaxCorrelation env src srcSize tmpl tmplSize = Inr score \<longrightarrow> 0 \<le> score)
            \<longrightarrow> 0 \<le> tm_confidence (templateMatch r) \<and> 0 \<le> ov_confidence (overall r))"
proof -
  obtain idImg refImg t x where
        t: "performTemplateMatching env idImg refImg = Inr t"
    and x: "extractTextLabels env svc idImageFile = Inr x"
    and r: "r = \<lparr>templateMatch = t, textExtraction = x, overall = overallOf t x\<rparr>"
    using verifyDocument_try_Inr[OF verifyDocument_Inr[OF run, THEN conjunct2]] by blast
  have te: "0 \<le> te_confidence x \<and> te_confidence x \<le> 1"
    using te_confidence_cases[OF x] ocr by (auto simp: min_def)
  consider "tm_confidence t = 0"
    | "cvMaxCorrelation env idImg (resizedSize idImg) refImg (resizedSize refImg)
         = Inr (tm_confidence t)"
    using tm_confidence_cases[OF t] by auto
  note score = this
  have tm: "- 1 \<le> tm_confidence t \<and> tm_confidence t \<le> 1"
    using score
  proof cases
    case 1
    then show ?thesis by simp
  next
    case 2
    with cv show ?thesis by blast
  qed
  have tm0: "0 \<le> tm_confidence t"
    if pos: "\<forall>src srcSize tmpl tmplSize score.
          cvMaxCorrelation env src srcSize tmpl tmplSize = Inr score \<longrightarrow> 0 \<le> score"
    using score
  proof cases
    case 1
    then show ?thesis by simp
  next
    case 2
    with pos show ?thesis by blast
  qed
  have ov: "ov_confidence (overall r) = (tm_confidence t + te_confidence x) / 2"
    unfolding r by (simp add: overallOf_def)
  have f: "templateMatch r = t" "textExtraction r = x" unfolding r by simp_all
  show ?thesis
    unfolding ov f using te tm tm0 by auto
qed

text \<open>A run with correlation 0.25 and OCR confidence 90.\<close>

theorem confidence_ranges_witness:
  "\<exists>notes r. verifyDocument (stubEnv (Inr stubImage) boardImage (Inr 0.25))
                 (stubService (Inr sampleData)) () () True = (notes, Inr r)
     \<and> (0::real) \<le> ocr_confidence sampleData \<and> ocr_confidence sampleData \<le> 100
     \<and> (- 1 :: real) \<le> 0.25 \<and> (0 :: real) \<le> 0.25 \<and> (0.25 :: real) \<le> 1
     \<and> tm_confidence (templateMatch r) = 0.25
     \<and> te_confidence (textExtraction r) = 0.9
     \<and> 0 \<le> te_confidence (textExtraction r) \<and> te_confidence (textExtraction r) \<le> 1
     \<and> 0 \<le> tm_confidence (templateMatch r) \<and> tm_confidence (templateMatch r) \<le> 1
     \<and> 0 \<le> ov_confidence (overall r) \<and> ov_confidence (overall r) \<le> 1"
proof -
  let ?env = "stubEnv (Inr stubImage) boardImage (Inr 0.25)"
  let ?svc = "stubService (Inr sampleData)"
  obtain r where run: "verifyDocument ?env ?svc () () True = (allNotes, Inr r)"
    and tm: "tm_confidence (templateMatch r) = 0.25"
    and te: "te_confidence (textExtraction r) = 0.9"
    using stub_run[OF stub_match stub_extract, of "0.25" sampleData]
    by (simp add: sample_confidence)
  have ocr: "\<forall>recognize data. tesseractWorker ?svc = Some recognize
                  \<and> recognize () = Inr data
                  \<longrightarrow> 0 \<le> ocr_confidence data \<and> ocr_confidence data \<le> 100"
    by (auto simp: stubService_simps sampleData_def)
  have cv: "\<forall>src srcSize tmpl tmplSize score.
                  cvMaxCorrelation ?env src srcSize tmpl tmplSize = Inr score
                  \<longrightarrow> - 1 \<le> score \<and> score \<le> 1"
    by (simp add: stubEnv_simps)
  have cv0: "\<forall>src srcSize tmpl tmplSize score.
                  cvMaxCorrelation ?env src srcSize tmpl tmplSize = Inr score \<longrightarrow> 0 \<le> score"
    by (simp add: stubEnv_simps)
  from confidence_ranges[OF run ocr cv] cv0
  have "0 \<le> te_confidence (textExtraction r) \<and> te_confidence (textExtraction r) \<le> 1
     \<and> 0 \<le> tm_confidence (templateMatch r) \<and> tm_confidence (templateMatch r) \<le> 1
     \<and> 0 \<le> ov_confidence (overall r) \<and> ov_confidence (overall r) \<le> 1"
    by blast
  moreover have "(0::real) \<le> ocr_confidence sampleData \<and> ocr_confidence sampleData \<le> 100"
    by (simp add: sampleData_def)
  ultimately show ?thesis
    using run tm te by (intro exI[of _ allNotes] exI[of _ r]) simp
qed

text \<open>
  C2 as stated fails for a correlation of -0.5: nothing clamps it, the confidence of the
  template match is -0.5 and the overall confidence -0.25.
\<close>

theorem negative_correlation_counterexample:
  "(- 1 :: real) \<le> - 0.5 \<and> (- 0.5 :: real) \<le> 1
   \<and> (0::real) \<le> ocr_confidence emptyData \<and> ocr_confidence emptyData \<le> 100
   \<and> (\<exists>notes r. verifyDocument (stubEnv (Inr stubImage) boardImage (Inr (- 0.5)))
                   (stubService (Inr emptyData)) () () True = (notes, Inr r)
        \<and> tm_confidence (templateMatch r) = - 0.5
        \<and> tm_confidence (templateMatch r) < 0
        \<and> ov_confidence (overall r) = - 0.25
        \<and> ov_confidence (overall r) < 0)"
proof -
  let ?env = "stubEnv (Inr stubImage) boardImage (Inr (- 0.5))"
  let ?svc = "stubService (Inr emptyData)"
  obtain r where run: "verifyDocument ?env ?svc () () True = (allNotes, Inr r)"
    and tm: "tm_confidence (templateMatch r) = - 0.5"
    and ov: "ov_confidence (overall r) = - 0.25"
    using stub_run[OF stub_match stub_extract, of "- 0.5" emptyData]
    by (simp add: empty_confidence overallOf_def)
  have "\<exists>notes r. verifyDocument ?env ?svc () () True = (notes, Inr r)
        \<and> tm_confidence (templateMatch r) = - 0.5
        \<and> tm_confidence (templateMatch r) < 0
        \<and> ov_confidence (overall r) = - 0.25
        \<and> ov_confidence (overall r) < 0"
    using run tm ov by (intro exI[of _ allNotes] exI[of _ r]) simp
  moreover have "(0::real) \<le> ocr_confidence emptyData \<and> ocr_confidence emptyData \<le> 100"
    by (simp add: emptyData_def)
  ultimately show ?thesis by simp
qed

subsection \<open>C3: the quality gate\<close>

text \<open>
  C3, as amended. When the image loads and the canvas answers the 640000 bytes of the
  400 by 400 analysis square, the gate throws the low-quality error exactly when the edge
  ratio is below 0.1, and returns otherwise. The luminance of a sample is the sum of its
  red, green and blue weighted by 0.299, 0.587 and 0.114, and two samples make an edge
  when the absolute value of the difference of their luminances is above 30, all in
  binary64 arithmetic. The edge ratio is the number of edges among the 159999 pairs of
  consecutive samples of the row-major buffer (the horizontally adjacent pairs, and also
  the pairs made of the last sample of a row and the first of the next), divided by the
  160000 samples; dividing by the 159999 pairs examined instead gives the same verdict,
  which is a rejection exactly when fewer than 16000 pairs are edges. A flat-colour
  image fails, and an image whose horizontally adjacent samples all make an edge passes.
\<close>

theorem quality_gate_edge_ratio:
  assumes load: "loadImageFromFile env imageFile = Inr img"
      and pixels: "canvasPixels env img analysisSize = Inr data"
      and len: "length data = 4 * analysisSize * analysisSize"
  shows "edgeLoop data 0 0 = card {j. j < analysisSize * analysisSize - 1 \<and> isEdge data (4 * j)}
       \<and> (j < analysisSize * analysisSize
            \<longrightarrow> luminance data (4 * j)
                = Some (fadd (fadd (fmul (real (unat (data ! (4 * j)))) (double 0.299))
                                   (fmul (real (unat (data ! (4 * j + 1)))) (double 0.587)))
                             (fmul (real (unat (data ! (4 * j + 2)))) (double 0.114))))
       \<and> (isEdge data (4 * j)
            \<longleftrightarrow> (\<exists>current next. luminance data (4 * j) = Some current
                   \<and> luminance data (4 * j + 4) = Some next \<and> 30 < \<bar>fsub current next\<bar>))
       \<and> edgeRatio data
           = Some (fdiv (real (edgeLoop data 0 0)) (real (analysisSize * analysisSize)))
       \<and> (lowEdgeRatio data
            \<longleftrightarrow> fdiv (real (edgeLoop data 0 0)) (real (analysisSize * analysisSize)) < double 0.1)
       \<and> (lowEdgeRatio data
            \<longleftrightarrow> fdiv (real (edgeLoop data 0 0)) (real (analysisSize * analysisSize - 1))
                < double 0.1)
       \<and> (lowEdgeRatio data \<longleftrightarrow> edgeLoop data 0 0 < 16000)
       \<and> (validateImageQuality env imageFile = Inl (Error lowQualityMessage)
            \<longleftrightarrow> lowEdgeRatio data)
       \<and> (validateImageQuality env imageFile = Inr () \<longleftrightarrow> \<not> lowEdgeRatio data)
       \<and> (flatColour data \<longrightarrow> validateImageQuality env imageFile = Inl (Error lowQualityMessage))
       \<and> (checkerboard data \<longrightarrow> validateImageQuality env imageFile = Inr ())"
proof -
  have len': "length data = 640000" using len by (simp only: square_size)
  have gate: "validateImageQuality env imageFile
      = (if lowEdgeRatio data then Inl (Error lowQualityMessage) else Inr ())"
    using load pixels by (rule validateImageQuality_data)
  have count: "edgeLoop data 0 0 = card {j. j < analysisSize * analysisSize - 1 \<and> isEdge data (4 * j)}"
    unfolding edgeLoop_edgeCount edgeCount_card pairCount_640000[OF len'] square_pairs ..
  have lum: "j < analysisSize * analysisSize
      \<longrightarrow> luminance data (4 * j)
          = Some (fadd (fadd (fmul (real (unat (data ! (4 * j)))) (double 0.299))
                             (fmul (real (unat (data ! (4 * j + 1)))) (double 0.587)))
                       (fmul (real (unat (data ! (4 * j + 2)))) (double 0.114)))"
  proof
    assume "j < analysisSize * analysisSize"
    then have "4 * j + 2 < (640000::nat)" unfolding square_samples by simp
    then have "4 * j + 2 < length data" unfolding len' .
    then show "luminance data (4 * j)
        = Some (fadd (fadd (fmul (real (unat (data ! (4 * j)))) (double 0.299))
                           (fmul (real (unat (data ! (4 * j + 1)))) (double 0.587)))
                     (fmul (real (unat (data ! (4 * j + 2)))) (double 0.114)))"
      unfolding luminance_def weightedSum_def by simp
  qed
  have edge: "isEdge data (4 * j)
      \<longleftrightarrow> (\<exists>current next. luminance data (4 * j) = Some current
             \<and> luminance data (4 * j + 4) = Some next \<and> 30 < \<bar>fsub current next\<bar>)"
    by (auto simp: isEdge_def threshold_def split: option.splits)
  have ratio: "edgeRatio data
      = Some (fdiv (real (edgeLoop data 0 0)) (real (analysisSize * analysisSize)))"
    unfolding edgeLoop_edgeCount edgeRatio_edgeCount[OF len'] square_samples by simp
  have low: "lowEdgeRatio data
      \<longleftrightarrow> fdiv (real (edgeLoop data 0 0)) (real (analysisSize * analysisSize)) < double 0.1"
    unfolding lowEdgeRatio_def ratio by simp
  have pairs: "lowEdgeRatio data
      \<longleftrightarrow> fdiv (real (edgeLoop data 0 0)) (real (analysisSize * analysisSize - 1)) < double 0.1"
  proof -
    have e1: "real (analysisSize * analysisSize - 1) = real (159999::nat)"
      by (simp only: square_pairs)
    have e2: "real (analysisSize * analysisSize) = real (160000::nat)"
      by (simp only: square_samples)
    show ?thesis
      unfolding low e1 e2 by (rule low_ratio_pairs)
  qed
  have edges: "lowEdgeRatio data \<longleftrightarrow> edgeLoop data 0 0 < 16000"
    unfolding edgeLoop_edgeCount by (rule low_ratio_iff[OF len'])
  have fails: "validateImageQuality env imageFile = Inl (Error lowQualityMessage)
      \<longleftrightarrow> lowEdgeRatio data"
    unfolding gate by simp
  have passes: "validateImageQuality env imageFile = Inr () \<longleftrightarrow> \<not> lowEdgeRatio data"
    unfolding gate by simp
  have flat: "flatColour data \<longrightarrow> validateImageQuality env imageFile = Inl (Error lowQualityMessage)"
  proof
    assume "flatColour data"
    then have "edgeCount data = 0" using len' by (rule edgeCount_flat)
    then have "lowEdgeRatio data" unfolding low_ratio_iff[OF len'] by simp
    then show "validateImageQuality env imageFile = Inl (Error lowQualityMessage)"
      unfolding fails .
  qed
  have board: "checkerboard data \<longrightarrow> validateImageQuality env imageFile = Inr ()"
  proof
    assume "checkerboard data"
    then have "159600 \<le> edgeCount data" using len' by (rule edgeCount_checkerboard)
    then have "\<not> lowEdgeRatio data" unfolding low_ratio_iff[OF len'] by simp
    then show "validateImageQuality env imageFile = Inr ()"
      unfolding passes .
  qed
  show ?thesis
    by (intro conjI count lum edge ratio low pairs edges fails passes flat board)
qed

text \<open>
  The gate on the checkerboard, on the flat square and on the striped square. The levels
  26 and 56 of the striped square differ by 30 exactly, and their luminances, as the
  source computes them, by more than 30: every pair is an edge.
\<close>

theorem quality_gate_edge_ratio_witness:
  "loadImageFromFile (stubEnv (Inr stubImage) boardImage (Inr 1)) () = Inr stubImage
   \<and> canvasPixels (stubEnv (Inr stubImage) boardImage (Inr 1)) stubImage analysisSize = Inr boardImage
   \<and> length boardImage = 4 * analysisSize * analysisSize
   \<and> checkerboard boardImage
   \<and> validateImageQuality (stubEnv (Inr stubImage) boardImage (Inr 1)) () = Inr ()
   \<and> loadImageFromFile (stubEnv (Inr stubImage) flatImage (Inr 1)) () = Inr stubImage
   \<and> canvasPixels (stubEnv (Inr stubImage) flatImage (Inr 1)) stubImage analysisSize = Inr flatImage
   \<and> length flatImage = 4 * analysisSize * analysisSize
   \<and> flatColour flatImage
   \<and> validateImageQuality (stubEnv (Inr stubImage) flatImage (Inr 1)) () = Inl (Error lowQualityMessage)
   \<and> luminance stripedImage 0 = Some (7318349394477055 / 281474976710656)
   \<and> luminance stripedImage 4 = Some 56
   \<and> isEdge stripedImage 0
   \<and> edgeLoop stripedImage 0 0 = 159999
   \<and> validateImageQuality (stubEnv (Inr stubImage) stripedImage (Inr 1)) () = Inr ()"
proof -
  have b1: "loadImageFromFile (stubEnv (Inr stubImage) boardImage (Inr 1)) () = Inr stubImage"
    by (simp add: loadImageFromFile_def stubEnv_simps)
  have b2: "canvasPixels (stubEnv (Inr stubImage) boardImage (Inr 1)) stubImage analysisSize
      = Inr boardImage"
    by (simp add: stubEnv_simps)
  have b3: "length boardImage = 4 * analysisSize * analysisSize"
    unfolding square_size boardImage_def by (rule length_image)
  have f1: "loadImageFromFile (stubEnv (Inr stubImage) flatImage (Inr 1)) () = Inr stubImage"
    by (simp add: loadImageFromFile_def stubEnv_simps)
  have f2: "canvasPixels (stubEnv (Inr stubImage) flatImage (Inr 1)) stubImage analysisSize
      = Inr flatImage"
    by (simp add: stubEnv_simps)
  have f3: "length flatImage = 4 * analysisSize * analysisSize"
    unfolding square_size flatImage_def by (rule length_image)
  have s1: "loadImageFromFile (stubEnv (Inr stubImage) stripedImage (Inr 1)) () = Inr stubImage"
    by (simp add: loadImageFromFile_def stubEnv_simps)
  have s2: "canvasPixels (stubEnv (Inr stubImage) stripedImage (Inr 1)) stubImage analysisSize
      = Inr stripedImage"
    by (simp add: stubEnv_simps)
  have s3: "length stripedImage = 4 * analysisSize * analysisSize"
    unfolding square_size stripedImage_def by (rule length_image)
  have l0: "luminance stripedImage (4 * 0) = Some (greyLuminance (stripeColour 0))"
    unfolding stripedImage_def by (rule luminance_greyImage) simp
  have l1: "luminance stripedImage (4 * 1) = Some (greyLuminance (stripeColour 1))"
    unfolding stripedImage_def by (rule luminance_greyImage) simp
  have s4: "luminance stripedImage 0 = Some (7318349394477055 / 281474976710656)"
    using l0 by (simp add: stripeColour_def greyLuminance_values)
  have s5: "luminance stripedImage 4 = Some 56"
    using l1 by (simp add: stripeColour_def greyLuminance_values)
  have s6: "isEdge stripedImage 0"
    using stripedImage_edges[of 0] by simp
  have s7: "edgeLoop stripedImage 0 0 = 159999"
    unfolding edgeLoop_edgeCount by (rule edgeCount_stripedImage)
  have "\<not> edgeLoop stripedImage 0 0 < 16000"
    unfolding s7 by simp
  with quality_gate_edge_ratio[OF s1 s2 s3, of 0]
  have s8: "validateImageQuality (stubEnv (Inr stubImage) stripedImage (Inr 1)) () = Inr ()"
    by blast
  show ?thesis
    using quality_gate_edge_ratio[OF b1 b2 b3, of 0] quality_gate_edge_ratio[OF f1 f2 f3, of 0]
      b1 b2 b3 f1 f2 f3 checkerboard_boardImage flatColour_flatImage s4 s5 s6 s7 s8
    by blast
qed

text \<open>
  C3 as stated fails on \<open>topImage\<close>: a tenth of its horizontally adjacent pairs are
  edges (15960 of 159600), so the ratio over those pairs is not below 0.1, and the gate
  rejects the image.
\<close>

theorem quality_gate_horizontal_pairs_counterexample:
  "loadImageFromFile (stubEnv (Inr stubImage) topImage (Inr 1)) () = Inr stubImage
   \<and> canvasPixels (stubEnv (Inr stubImage) topImage (Inr 1)) stubImage analysisSize = Inr topImage
   \<and> length topImage = 4 * analysisSize * analysisSize
   \<and> \<not> horizontalEdgeRatio topImage < double 0.1
   \<and> validateImageQuality (stubEnv (Inr stubImage) topImage (Inr 1)) () = Inl (Error lowQualityMessage)"
proof -
  have "length topImage = 4 * analysisSize * analysisSize"
    unfolding square_size topImage_def by (rule length_image)
  moreover have "validateImageQuality (stubEnv (Inr stubImage) topImage (Inr 1)) ()
      = Inl (Error lowQualityMessage)"
    unfolding validate_stub using edgeRatio_topImage by simp
  moreover have "loadImageFromFile (stubEnv (Inr stubImage) topImage (Inr 1)) () = Inr stubImage"
    by (simp add: loadImageFromFile_def stubEnv_simps)
  moreover have "canvasPixels (stubEnv (Inr stubImage) topImage (Inr 1)) stubImage analysisSize
      = Inr topImage"
    by (simp add: stubEnv_simps)
  ultimately show ?thesis
    using horizontalEdgeRatio_topImage by blast
qed

subsection \<open>C4: a second call\<close>

text \<open>
  C4, as amended. A second call of \<open>verifyDocument\<close> made while a first call is running
  is not rejected: the only check on entry is that both engines are initialised, a call
  in flight changes no field of the service, and so the second call passes the check the
  first one passed, notifies and calls the quality gate. The second call does not alter
  the eventual result of the first: on every schedule of the two calls the service stays
  as it was, each call is where the same number of turns take it when it runs alone, a
  call that has settled has settled with the outcome \<open>verifyDocument\<close> gives on its own
  arguments, and a call that has had five turns has settled.
\<close>

theorem second_call_is_admitted:
  assumes first: "resumes env k (verifyDocument_enter svc idA refA progressA) = (svc1, a)"
      and running: "\<forall>r. c_pending a \<noteq> Settled r"
      and second: "verifyDocument_enter svc1 idB refB progressB = (svc2, b)"
      and later: "interleave env ts (svc2, a, b) = (svc3, a', b')"
  shows "svc1 = svc \<and> svc2 = svc \<and> svc3 = svc
       \<and> c_pending b = AwaitQuality
       \<and> c_events b = (if progressB then [OnProgress ''Validating image quality...'' 5] else [])
                       @ [ValidateImageQuality idB]
       \<and> a' = snd (resumes env (k + turnsOf FirstCall ts)
                     (verifyDocument_enter svc idA refA progressA))
       \<and> b' = snd (resumes env (turnsOf SecondCall ts)
                     (verifyDocument_enter svc idB refB progressB))
       \<and> (\<forall>r. c_pending a' = Settled r
              \<longrightarrow> a' = verifyDocument_alone env svc idA refA progressA
                \<and> r = snd (verifyDocument env svc idA refA progressA))
       \<and> (5 \<le> k + turnsOf FirstCall ts
            \<longrightarrow> c_pending a' = Settled (snd (verifyDocument env svc idA refA progressA)))
       \<and> (5 \<le> turnsOf SecondCall ts
            \<longrightarrow> c_pending b' = Settled (snd (verifyDocument env svc idB refB progressB)))"
proof -
  let ?ea = "verifyDocument_enter svc idA refA progressA"
  let ?eb = "verifyDocument_enter svc idB refB progressB"
  have ea: "?ea = (svc, snd ?ea)" by (rule enter_eq)
  have eb: "?eb = (svc, snd ?eb)" by (rule enter_eq)
  have "fst (resumes env k (svc, snd ?ea)) = svc" by (rule resumes_service)
  then have s1: "svc1 = svc" using first unfolding ea[symmetric] by simp
  have a: "a = snd (resumes env k ?ea)" using first by simp
  have g: "verifyDocument_guard svc = None"
    using running unfolding a by (rule running_guard)
  have s2: "svc2 = svc" and b: "b = snd ?eb"
    using second enter_service[of svc idB refB progressB] unfolding s1 by simp_all
  have bp: "c_pending b = AwaitQuality"
    and be: "c_events b = (if progressB then [OnProgress ''Validating image quality...'' 5] else [])
                       @ [ValidateImageQuality idB]"
    unfolding b enter_admitted[OF g] by simp_all
  have il: "(svc3, a', b')
      = (svc, snd (resumes env (turnsOf FirstCall ts) (svc, a)),
              snd (resumes env (turnsOf SecondCall ts) (svc, b)))"
    using later[unfolded s2 interleave_resumes] by (rule sym)
  have s3: "svc3 = svc"
    and a0: "a' = snd (resumes env (turnsOf FirstCall ts) (svc, a))"
    and b0: "b' = snd (resumes env (turnsOf SecondCall ts) (svc, b))"
    using il unfolding prod.inject by blast+
  have "resumes env (k + turnsOf FirstCall ts) ?ea
      = resumes env (turnsOf FirstCall ts) (resumes env k ?ea)"
    by (rule resumes_add)
  also have "resumes env k ?ea = (svc, a)" using first unfolding s1 .
  finally have a': "a' = snd (resumes env (k + turnsOf FirstCall ts) ?ea)"
    unfolding a0 by simp
  have b': "b' = snd (resumes env (turnsOf SecondCall ts) ?eb)"
    unfolding b0 b by (simp add: eb[symmetric])
  have ra: "\<forall>r. c_pending a' = Settled r
      \<longrightarrow> a' = verifyDocument_alone env svc idA refA progressA
        \<and> r = snd (verifyDocument env svc idA refA progressA)"
    unfolding a'
  proof (intro allI impI)
    fix r
    assume "c_pending (snd (resumes env (k + turnsOf FirstCall ts) ?ea)) = Settled r"
    then show "snd (resumes env (k + turnsOf FirstCall ts) ?ea)
          = verifyDocument_alone env svc idA refA progressA
        \<and> r = snd (verifyDocument env svc idA refA progressA)"
      by (rule settled_is_alone)
  qed
  have la: "5 \<le> k + turnsOf FirstCall ts
      \<longrightarrow> c_pending a' = Settled (snd (verifyDocument env svc idA refA progressA))"
    unfolding a' using enough_turns_settle[of "k + turnsOf FirstCall ts" env svc idA refA progressA]
      alone_result[of env svc idA refA progressA] by simp
  have lb: "5 \<le> turnsOf SecondCall ts
      \<longrightarrow> c_pending b' = Settled (snd (verifyDocument env svc idB refB progressB))"
    unfolding b' using enough_turns_settle[of "turnsOf SecondCall ts" env svc idB refB progressB]
      alone_result[of env svc idB refB progressB] by simp
  show ?thesis
    by (intro conjI s1 s2 s3 bp be a' b' ra la lb)
qed

text \<open>
  Two calls on the stub engines: the second is made when the first awaits the reference
  image, and the turns then alternate.
\<close>

theorem second_call_is_admitted_witness:
  "\<exists>a b a' b' r.
     resumes (stubEnv (Inr stubImage) boardImage (Inr 0.5)) 2
         (verifyDocument_enter (stubService (Inr sampleData)) () () True)
       = (stubService (Inr sampleData), a)
   \<and> c_pending a = AwaitReferenceImage stubImage
   \<and> verifyDocument_enter (stubService (Inr sampleData)) () () True
       = (stubService (Inr sampleData), b)
   \<and> c_pending b = AwaitQuality
   \<and> interleave (stubEnv (Inr stubImage) boardImage (Inr 0.5))
         [SecondCall, FirstCall, SecondCall, FirstCall, SecondCall, FirstCall]
         (stubService (Inr sampleData), a, b)
       = (stubService (Inr sampleData), a', b')
   \<and> c_pending a' = Settled (Inr r)
   \<and> verifyDocument (stubEnv (Inr stubImage) boardImage (Inr 0.5))
         (stubService (Inr sampleData)) () () True = (allNotes, Inr r)
   \<and> c_pending b' = AwaitMatching stubImage stubImage"
proof -
  let ?env = "stubEnv (Inr stubImage) boardImage (Inr 0.5)"
  let ?svc = "stubService (Inr sampleData)"
  let ?ts = "[SecondCall, FirstCall, SecondCall, FirstCall, SecondCall, FirstCall]"
  let ?e = "verifyDocument_enter ?svc () () True"
  define a where "a = snd (resumes ?env 2 ?e)"
  define b where "b = snd ?e"
  define a' where "a' = fst (snd (interleave ?env ?ts (?svc, a, b)))"
  define b' where "b' = snd (snd (interleave ?env ?ts (?svc, a, b)))"
  note steps = verifyDocument_resume_def eval_nat_numeral notify_def invoke_def emit_def
    stub_quality stub_load
  have e: "?e = (?svc, b)" unfolding b_def by (rule enter_eq)
  have first: "resumes ?env 2 ?e = (?svc, a)"
    unfolding a_def by (subst (1 2) enter_eq) (rule resumes_eq)
  have ap: "c_pending a = AwaitReferenceImage stubImage"
    unfolding a_def enter_admitted[OF stub_guard] by (simp add: steps)
  then have running: "\<forall>r. c_pending a \<noteq> Settled r" by simp
  have later: "interleave ?env ?ts (?svc, a, b) = (?svc, a', b')"
    unfolding a'_def b'_def interleave_resumes by simp
  note t = second_call_is_admitted[OF first running e later]
  have turns: "turnsOf FirstCall ?ts = 3" "turnsOf SecondCall ?ts = 3"
    by (simp_all add: turnsOf_def)
  obtain r where run: "verifyDocument ?env ?svc () () True = (allNotes, Inr r)"
    using stub_run[OF stub_match stub_extract] by blast
  have bp: "c_pending b = AwaitQuality" using t by blast
  have "5 \<le> 2 + turnsOf FirstCall ?ts"
    unfolding turns by simp
  with t have "c_pending a' = Settled (snd (verifyDocument ?env ?svc () () True))"
    by blast
  then have as: "c_pending a' = Settled (Inr r)" unfolding run by simp
  have "b' = snd (resumes ?env (turnsOf SecondCall ?ts) ?e)"
    using t by blast
  then have "b' = snd (resumes ?env 3 ?e)"
    unfolding turns .
  then have bs: "c_pending b' = AwaitMatching stubImage stubImage"
    unfolding enter_admitted[OF stub_guard] by (simp add: steps)
  show ?thesis
    using first ap e bp later as run bs
    by (intro exI[of _ a] exI[of _ b] exI[of _ a'] exI[of _ b'] exI[of _ r] conjI)
qed

text \<open>
  C4 as stated fails on an initialised service: with a first call in flight, at its first
  await, the second call is not rejected. It is admitted as the first one was and awaits
  the quality gate.
\<close>

theorem second_call_is_not_rejected_counterexample:
  "verifyDocument_enter (stubService (Inr sampleData)) () () True
     = (stubService (Inr sampleData),
        \<lparr>c_idImageFile = (), c_referenceImageFile = (), c_onProgress = True,
          c_events = [OnProgress ''Validating image quality...'' 5, ValidateImageQuality ()],
          c_pending = AwaitQuality\<rparr>)
   \<and> verifyDocument_enter (fst (verifyDocument_enter (stubService (Inr sampleData)) () () True))
       () () True
     = (stubService (Inr sampleData),
        \<lparr>c_idImageFile = (), c_referenceImageFile = (), c_onProgress = True,
          c_events = [OnProgress ''Validating image quality...'' 5, ValidateImageQuality ()],
          c_pending = AwaitQuality\<rparr>)"
  unfolding enter_service by (simp add: enter_admitted[OF stub_guard])

subsection \<open>C5: the matcher and the extractor return\<close>

text \<open>
  C5. Whatever the engines do, \<open>performTemplateMatching\<close> and \<open>extractTextLabels\<close>
  return a result and throw nothing. When the body of the matcher's \<^verbatim>\<open>try\<close> block throws,
  the matcher returns no match, confidence 0 and its failure message; when the body of
  the extractor's throws, the extractor returns no labels, no data, confidence 0 and its
  failure message.
\<close>

theorem stages_never_raise:
  "(\<exists>r. performTemplateMatching env sourceImg templateImg = Inr r)
   \<and> (\<exists>r. extractTextLabels env svc imageFile = Inr r)
   \<and> (\<forall>e. performTemplateMatching_try env sourceImg templateImg = Inl e
          \<longrightarrow> performTemplateMatching env sourceImg templateImg
              = Inr \<lparr>tm_isMatch = False, tm_confidence = 0,
                      tm_details = ''Template matching failed due to processing error.''\<rparr>)
   \<and> (\<forall>e. extractTextLabels_try env svc imageFile = Inl e
          \<longrightarrow> extractTextLabels env svc imageFile
              = Inr \<lparr>te_extractedLabels = [], te_extractedData = Map.empty, te_confidence = 0,
                      te_details = ''Text extraction failed due to OCR processing error.''\<rparr>)"
proof -
  have "\<exists>r. performTemplateMatching env sourceImg templateImg = Inr r"
    unfolding performTemplateMatching_catch by blast
  moreover have "\<exists>r. extractTextLabels env svc imageFile = Inr r"
    unfolding extractTextLabels_catch by blast
  moreover have "performTemplateMatching env sourceImg templateImg
      = Inr \<lparr>tm_isMatch = False, tm_confidence = 0,
              tm_details = ''Template matching failed due to processing error.''\<rparr>"
    if "performTemplateMatching_try env sourceImg templateImg = Inl e" for e
    unfolding performTemplateMatching_catch that by (simp add: templateFailure_def)
  moreover have "extractTextLabels env svc imageFile
      = Inr \<lparr>te_extractedLabels = [], te_extractedData = Map.empty, te_confidence = 0,
              te_details = ''Text extraction failed due to OCR processing error.''\<rparr>"
    if "extractTextLabels_try env svc imageFile = Inl e" for e
    unfolding extractTextLabels_catch that by (simp add: extractionFailure_def)
  ultimately show ?thesis by blast
qed

text \<open>An OpenCV call that throws an error, and a recognition that rejects.\<close>

theorem stages_never_raise_witness:
  "performTemplateMatching_try (stubEnv (Inr stubImage) boardImage (Inl (Error ''matchTemplate'')))
      stubImage stubImage = Inl (Error ''matchTemplate'')
   \<and> performTemplateMatching (stubEnv (Inr stubImage) boardImage (Inl (Error ''matchTemplate'')))
      stubImage stubImage
      = Inr \<lparr>tm_isMatch = False, tm_confidence = 0,
              tm_details = ''Template matching failed due to processing error.''\<rparr>
   \<and> extractTextLabels_try (stubEnv (Inr stubImage) boardImage (Inl (Error ''matchTemplate'')))
      (stubService (Inl NotAnError)) () = Inl NotAnError
   \<and> extractTextLabels (stubEnv (Inr stubImage) boardImage (Inl (Error ''matchTemplate'')))
      (stubService (Inl NotAnError)) ()
      = Inr \<lparr>te_extractedLabels = [], te_extractedData = Map.empty, te_confidence = 0,
              te_details = ''Text extraction failed due to OCR processing error.''\<rparr>"
proof -
  have m: "performTemplateMatching_try (stubEnv (Inr stubImage) boardImage (Inl (Error ''matchTemplate'')))
      stubImage stubImage = Inl (Error ''matchTemplate'')"
    by (simp add: performTemplateMatching_try_def stubEnv_simps)
  have x: "extractTextLabels_try (stubEnv (Inr stubImage) boardImage (Inl (Error ''matchTemplate'')))
      (stubService (Inl NotAnError)) () = Inl NotAnError"
    by (simp add: extractTextLabels_try_def stubService_simps)
  show ?thesis
    using m x
      stages_never_raise[of "stubEnv (Inr stubImage) boardImage (Inl (Error ''matchTemplate''))"
        stubImage stubImage "stubService (Inl NotAnError)" "()"]
    by blast
qed

subsection \<open>C6: the value on the next line\<close>

text \<open>
  C6, on the text \<^verbatim>\<open>"DOB\n01/01/1990\nDOB\n02/02/1992"\<close>. The third line matches the
  phrase dob, nothing follows the phrase on it, and the line after it is 02/02/1992. The
  extractor looks the line up with \<^verbatim>\<open>lines.indexOf(line)\<close>, finds the first line
  equal to it, and records the line after that one: the value of Date of Birth is
  01/01/1990.
\<close>

theorem duplicate_line_takes_the_first_successor:
  "textLines duplicateText = [''DOB'', ''01/01/1990'', ''DOB'', ''02/02/1992'']
   \<and> str_includes (trim (toLowerCase ''DOB'')) ''dob''
   \<and> regexMatch ''dob'' ''DOB'' = None
   \<and> (\<exists>r. extractTextLabels env (stubService (Inr \<lparr>ocr_text = duplicateText, ocr_confidence = c\<rparr>)) ()
              = Inr r
          \<and> te_extractedLabels r = [''Date of Birth'']
          \<and> te_extractedData r ''Date of Birth'' = Some ''01/01/1990'')"
proof -
  have w: "tesseractWorker (stubService (Inr \<lparr>ocr_text = duplicateText, ocr_confidence = c\<rparr>))
      = Some (\<lambda>file. Inr \<lparr>ocr_text = duplicateText, ocr_confidence = c\<rparr>)"
    by (simp add: stubService_simps)
  have e: "extractTextLabels env (stubService (Inr \<lparr>ocr_text = duplicateText, ocr_confidence = c\<rparr>)) ()
      = Inr (extractFromData env \<lparr>ocr_text = duplicateText, ocr_confidence = c\<rparr>)"
    using w refl by (rule extractTextLabels_recognized)
  have "sort (uniq (fst (scanLines (textLines duplicateText) (textLines duplicateText)
      ([], Map.empty)))) = [''Date of Birth'']"
    by code_simp
  then have l: "te_extractedLabels (extractFromData env \<lparr>ocr_text = duplicateText, ocr_confidence = c\<rparr>)
      = [''Date of Birth'']"
    unfolding extractFromData_fields by simp
  have b: "te_extractedData (extractFromData env \<lparr>ocr_text = duplicateText, ocr_confidence = c\<rparr>)
      ''Date of Birth'' = Some ''01/01/1990''"
    unfolding extractFromData_fields using duplicate_birth by simp
  have i: "str_includes (trim (toLowerCase ''DOB'')) ''dob''" by code_simp
  have n: "regexMatch ''dob'' ''DOB'' = None" by code_simp
  show ?thesis
    using duplicate_lines e l b i n by blast
qed

subsection \<open>C7: the sample text\<close>

text \<open>
  C7. When the worker recognises the text \<open>sampleText\<close>, that is
  \<^verbatim>\<open>"Name: John Smith\nDate of Birth\n01/01/1990"\<close>, the extractor returns the labels
  Date of Birth and Name, in that order, the value John Smith for Name and, from the line
  that follows the label, the value 01/01/1990 for Date of Birth.
\<close>

theorem sample_text_extraction:
  assumes "tesseractWorker svc = Some recognize"
      and "recognize imageFile = Inr data"
      and "ocr_text data = sampleText"
  shows "\<exists>r. extractTextLabels env svc imageFile = Inr r
           \<and> te_extractedLabels r = [''Date of Birth'', ''Name'']
           \<and> te_extractedData r ''Name'' = Some ''John Smith''
           \<and> te_extractedData r ''Date of Birth'' = Some ''01/01/1990''"
proof -
  have e: "extractTextLabels env svc imageFile = Inr (extractFromData env data)"
    using assms(1,2) by (rule extractTextLabels_recognized)
  have l: "te_extractedLabels (extractFromData env data) = [''Date of Birth'', ''Name'']"
    unfolding extractFromData_fields assms(3) by (rule sample_labels)
  have n: "te_extractedData (extractFromData env data) ''Name'' = Some ''John Smith''"
    unfolding extractFromData_fields assms(3) by (rule sample_name)
  have b: "te_extractedData (extractFromData env data) ''Date of Birth'' = Some ''01/01/1990''"
    unfolding extractFromData_fields assms(3) by (rule sample_birth)
  show ?thesis
    using e l n b by blast
qed

text \<open>The stub worker that recognises the sample text.\<close>

theorem sample_text_extraction_witness:
  "tesseractWorker (stubService (Inr sampleData)) = Some (\<lambda>file. Inr sampleData)
   \<and> ocr_text sampleData = sampleText
   \<and> (\<exists>r. extractTextLabels (stubEnv (Inr stubImage) boardImage (Inr 1))
              (stubService (Inr sampleData)) () = Inr r
           \<and> te_extractedLabels r = [''Date of Birth'', ''Name'']
           \<and> te_extractedData r ''Name'' = Some ''John Smith''
           \<and> te_extractedData r ''Date of Birth'' = Some ''01/01/1990'')"
proof -
  have w: "tesseractWorker (stubService (Inr sampleData)) = Some (\<lambda>file. Inr sampleData)"
    by (simp add: stubService_simps)
  have d: "(\<lambda>file::unit. (Inr sampleData :: thrown + ocr_data)) () = Inr sampleData"
    by simp
  have t: "ocr_text sampleData = sampleText"
    by (simp add: sampleData_def)
  show ?thesis
    using w t sample_text_extraction[OF w d t, of "stubEnv (Inr stubImage) boardImage (Inr 1)"]
    by blast
qed

subsection \<open>C8: progress notifications\<close>

text \<open>
  C8. A caller that passes a progress callback to a run that returns a result receives
  exactly six notifications, with the percentages 5, 10, 30, 60, 90 and 100 in that
  order, which never decrease. Whatever the outcome of the run, the percentages received
  are an initial part of that list. Each notification is made before its stage: the
  events of a run that returns a result are the notification of 5, the call of the
  quality gate, the notification of 10, the two loads, the notification of 30, the call
  of the matcher, the notification of 60, the call of the extractor, the notification of
  90, the computation of the verdict and the notification of 100, and the events of any
  run are an initial part of such a list. A run whose quality gate throws has notified 5
  and nothing else, and a run in which a load fails has notified 5 and 10 and nothing
  else.
\<close>

theorem progress_checkpoints:
  "(verifyDocument env svc idImageFile referenceImageFile True = (notes, Inr r)
      \<longrightarrow> notes = [(''Validating image quality...'', 5), (''Loading images...'', 10),
                   (''Performing template matching...'', 30), (''Extracting text labels...'', 60),
                   (''Finalizing verification...'', 90), (''Verification complete'', 100)]
        \<and> map snd notes = [5, 10, 30, 60, 90, 100]
        \<and> sorted (map snd notes))
   \<and> (\<exists>k. map snd (fst (verifyDocument env svc idImageFile referenceImageFile True))
           = take k [5, 10, 30, 60, 90, 100])
   \<and> c_pending (verifyDocument_alone env svc idImageFile referenceImageFile True)
       = Settled (snd (verifyDocument env svc idImageFile referenceImageFile True))
   \<and> progressOf (c_events (verifyDocument_alone env svc idImageFile referenceImageFile True))
       = fst (verifyDocument env svc idImageFile referenceImageFile True)
   \<and> (verifyDocument env svc idImageFile referenceImageFile True = (notes, Inr r)
      \<longrightarrow> (\<exists>idImg refImg.
             loadImageFromFile env idImageFile = Inr idImg
           \<and> loadImageFromFile env referenceImageFile = Inr refImg
           \<and> c_events (verifyDocument_alone env svc idImageFile referenceImageFile True)
             = [OnProgress ''Validating image quality...'' 5, ValidateImageQuality idImageFile,
                OnProgress ''Loading images...'' 10, LoadImageFromFile idImageFile,
                LoadImageFromFile referenceImageFile,
                OnProgress ''Performing template matching...'' 30,
                PerformTemplateMatching idImg refImg,
                OnProgress ''Extracting text labels...'' 60, ExtractTextLabels idImageFile,
                OnProgress ''Finalizing verification...'' 90,
                ComputeOverall (templateMatch r) (textExtraction r),
                OnProgress ''Verification complete'' 100]))
   \<and> (\<exists>k idImg refImg templateResult textResult.
         c_events (verifyDocument_alone env svc idImageFile referenceImageFile True)
           = take k (eventsOfRun idImageFile referenceImageFile idImg refImg
                       templateResult textResult))
   \<and> (verifyDocument_guard svc = None \<and> validateImageQuality env idImageFile = Inl e
      \<longrightarrow> fst (verifyDocument env svc idImageFile referenceImageFile True)
          = [(''Validating image quality...'', 5)])
   \<and> (verifyDocument_guard svc = None \<and> validateImageQuality env idImageFile = Inr ()
        \<and> (loadImageFromFile env idImageFile = Inl e
            \<or> loadImageFromFile env referenceImageFile = Inl e)
      \<longrightarrow> fst (verifyDocument env svc idImageFile referenceImageFile True)
          = [(''Validating image quality...'', 5), (''Loading images...'', 10)])"
proof -
  let ?run = "verifyDocument env svc idImageFile referenceImageFile True"
  let ?alone = "verifyDocument_alone env svc idImageFile referenceImageFile True"
  have a: "?run = (notes, Inr r)
      \<longrightarrow> notes = [(''Validating image quality...'', 5), (''Loading images...'', 10),
                   (''Performing template matching...'', 30), (''Extracting text labels...'', 60),
                   (''Finalizing verification...'', 90), (''Verification complete'', 100)]
        \<and> map snd notes = [5, 10, 30, 60, 90, 100]
        \<and> sorted (map snd notes)"
  proof
    assume "?run = (notes, Inr r)"
    then have "notes = allNotes"
      using verifyDocument_try_Inr[OF verifyDocument_Inr[THEN conjunct2]] by fastforce
    then show "notes = [(''Validating image quality...'', 5), (''Loading images...'', 10),
                   (''Performing template matching...'', 30), (''Extracting text labels...'', 60),
                   (''Finalizing verification...'', 90), (''Verification complete'', 100)]
        \<and> map snd notes = [5, 10, 30, 60, 90, 100]
        \<and> sorted (map snd notes)"
      by (simp add: allNotes_def)
  qed
  have b: "\<exists>k. map snd (fst ?run) = take k [5, 10, 30, 60, 90, 100]"
  proof -
    obtain k where "fst ?run = take k allNotes"
      using verifyDocument_notes_prefix[of env svc idImageFile referenceImageFile] by blast
    then have "map snd (fst ?run) = take k (map snd allNotes)"
      by (simp add: take_map)
    moreover have "map snd allNotes = [5, 10, 30, 60, 90, 100]"
      by (simp add: allNotes_def)
    ultimately show ?thesis by metis
  qed
  have c: "c_pending ?alone = Settled (snd ?run)"
    using alone_result[of env svc idImageFile referenceImageFile True] by (rule conjunct1)
  have d: "progressOf (c_events ?alone) = fst ?run"
    using alone_result[of env svc idImageFile referenceImageFile True] by (rule conjunct2)
  have e: "?run = (notes, Inr r)
      \<longrightarrow> (\<exists>idImg refImg.
             loadImageFromFile env idImageFile = Inr idImg
           \<and> loadImageFromFile env referenceImageFile = Inr refImg
           \<and> c_events ?alone
             = [OnProgress ''Validating image quality...'' 5, ValidateImageQuality idImageFile,
                OnProgress ''Loading images...'' 10, LoadImageFromFile idImageFile,
                LoadImageFromFile referenceImageFile,
                OnProgress ''Performing template matching...'' 30,
                PerformTemplateMatching idImg refImg,
                OnProgress ''Extracting text labels...'' 60, ExtractTextLabels idImageFile,
                OnProgress ''Finalizing verification...'' 90,
                ComputeOverall (templateMatch r) (textExtraction r),
                OnProgress ''Verification complete'' 100])"
  proof
    assume run: "?run = (notes, Inr r)"
    note g = verifyDocument_Inr[OF run, THEN conjunct1]
    obtain idImg refImg templateResult textResult where
      s: "validateImageQuality env idImageFile = Inr ()"
         "loadImageFromFile env idImageFile = Inr idImg"
         "loadImageFromFile env referenceImageFile = Inr refImg"
         "performTemplateMatching env idImg refImg = Inr templateResult"
         "extractTextLabels env svc idImageFile = Inr textResult"
      and r: "r = \<lparr>templateMatch = templateResult, textExtraction = textResult,
                    overall = overallOf templateResult textResult\<rparr>"
      using verifyDocument_try_Inr[OF verifyDocument_Inr[OF run, THEN conjunct2]] by blast
    have "c_events ?alone
        = eventsOfRun idImageFile referenceImageFile idImg refImg templateResult textResult"
      using g s by (rule alone_events_run)
    then show "\<exists>idImg refImg.
             loadImageFromFile env idImageFile = Inr idImg
           \<and> loadImageFromFile env referenceImageFile = Inr refImg
           \<and> c_events ?alone
             = [OnProgress ''Validating image quality...'' 5, ValidateImageQuality idImageFile,
                OnProgress ''Loading images...'' 10, LoadImageFromFile idImageFile,
                LoadImageFromFile referenceImageFile,
                OnProgress ''Performing template matching...'' 30,
                PerformTemplateMatching idImg refImg,
                OnProgress ''Extracting text labels...'' 60, ExtractTextLabels idImageFile,
                OnProgress ''Finalizing verification...'' 90,
                ComputeOverall (templateMatch r) (textExtraction r),
                OnProgress ''Verification complete'' 100]"
      using s(2,3) unfolding r eventsOfRun_def
      by (intro exI[of _ idImg] exI[of _ refImg]) simp
  qed
  note f = alone_events_prefix[of env svc idImageFile referenceImageFile]
  have g: "verifyDocument_guard svc = None \<and> validateImageQuality env idImageFile = Inl e
      \<longrightarrow> fst ?run = [(''Validating image quality...'', 5)]"
    using notes_quality[of svc env idImageFile e referenceImageFile] by blast
  have h: "verifyDocument_guard svc = None \<and> validateImageQuality env idImageFile = Inr ()
        \<and> (loadImageFromFile env idImageFile = Inl e
            \<or> loadImageFromFile env referenceImageFile = Inl e)
      \<longrightarrow> fst ?run = [(''Validating image quality...'', 5), (''Loading images...'', 10)]"
    using notes_load[of svc env idImageFile e referenceImageFile] by blast
  show ?thesis
    by (intro conjI a b c d e f g h)
qed

text \<open>
  The notifications and the events of a run on the stub engines, and the one
  notification and the two events of a run that the quality gate rejects.
\<close>

theorem progress_checkpoints_witness:
  "(\<exists>notes r. verifyDocument (stubEnv (Inr stubImage) boardImage (Inr 0.5))
                (stubService (Inr sampleData)) () () True = (notes, Inr r)
     \<and> map snd notes = [5, 10, 30, 60, 90, 100]
     \<and> sorted (map snd notes)
     \<and> c_events (verifyDocument_alone (stubEnv (Inr stubImage) boardImage (Inr 0.5))
                   (stubService (Inr sampleData)) () () True)
       = eventsOfRun () () stubImage stubImage (templateMatch r) (textExtraction r))
   \<and> verifyDocument_guard (stubService (Inr sampleData)) = None
   \<and> validateImageQuality (stubEnv (Inr stubImage) flatImage (Inr 0.5)) ()
       = Inl (Error lowQualityMessage)
   \<and> fst (verifyDocument (stubEnv (Inr stubImage) flatImage (Inr 0.5))
            (stubService (Inr sampleData)) () () True)
       = [(''Validating image quality...'', 5)]
   \<and> c_events (verifyDocument_alone (stubEnv (Inr stubImage) flatImage (Inr 0.5))
                 (stubService (Inr sampleData)) () () True)
       = [OnProgress ''Validating image quality...'' 5, ValidateImageQuality ()]"
proof -
  let ?env = "stubEnv (Inr stubImage) boardImage (Inr 0.5)"
  let ?flat = "stubEnv (Inr stubImage) flatImage (Inr 0.5)"
  let ?svc = "stubService (Inr sampleData)"
  obtain r where run: "verifyDocument ?env ?svc () () True = (allNotes, Inr r)"
    using stub_run[OF stub_match stub_extract] by blast
  note p = progress_checkpoints[of ?env ?svc "()" "()" allNotes r]
  from p run
  have n: "map snd allNotes = [5, 10, 30, 60, 90, 100] \<and> sorted (map snd allNotes)"
    by blast
  from p run
  have "\<exists>idImg refImg.
      loadImageFromFile ?env () = Inr idImg \<and> loadImageFromFile ?env () = Inr refImg
    \<and> c_events (verifyDocument_alone ?env ?svc () () True)
      = eventsOfRun () () idImg refImg (templateMatch r) (textExtraction r)"
    unfolding eventsOfRun_def by blast
  then have ev: "c_events (verifyDocument_alone ?env ?svc () () True)
      = eventsOfRun () () stubImage stubImage (templateMatch r) (textExtraction r)"
    unfolding stub_load by auto
  have g: "verifyDocument_guard ?svc = None" by (rule stub_guard)
  have v: "validateImageQuality ?flat () = Inl (Error lowQualityMessage)"
    unfolding validate_stub using edgeRatio_flatImage by simp
  from progress_checkpoints[of ?flat ?svc "()" "()" _ _ "Error lowQualityMessage"] g v
  have fl: "fst (verifyDocument ?flat ?svc () () True) = [(''Validating image quality...'', 5)]"
    by blast
  have fe: "c_events (verifyDocument_alone ?flat ?svc () () True)
      = [OnProgress ''Validating image quality...'' 5, ValidateImageQuality ()]"
    using g v by (rule alone_events_quality)
  have "\<exists>notes r. verifyDocument ?env ?svc () () True = (notes, Inr r)
     \<and> map snd notes = [5, 10, 30, 60, 90, 100]
     \<and> sorted (map snd notes)
     \<and> c_events (verifyDocument_alone ?env ?svc () () True)
       = eventsOfRun () () stubImage stubImage (templateMatch r) (textExtraction r)"
    using run n ev by (intro exI[of _ allNotes] exI[of _ r]) simp
  then show ?thesis
    using g v fl fe by (intro conjI)
qed

subsection \<open>C9: the shape of the extraction result\<close>

text \<open>
  C9. Whatever the worker answers, the extractor returns a result in which every key of
  \<open>extractedData\<close> is one of the \<open>extractedLabels\<close>, every extracted label is one of
  the 13 labels of the table, and the extracted labels are without duplicates and in
  ascending lexicographic order.
\<close>

theorem extraction_result_invariant:
  "\<exists>r. extractTextLabels env svc imageFile = Inr r
      \<and> dom (te_extractedData r) \<subseteq> set (te_extractedLabels r)
      \<and> set (te_extractedLabels r)
          \<subseteq> set [''Name'', ''Date of Birth'', ''ID Number'', ''Address'', ''City'', ''State'',
                 ''ZIP Code'', ''Sex'', ''Height'', ''Weight'', ''Issue Date'', ''Expiration'',
                 ''Class'']
      \<and> map fst labelPatterns
          = [''Name'', ''Date of Birth'', ''ID Number'', ''Address'', ''City'', ''State'',
             ''ZIP Code'', ''Sex'', ''Height'', ''Weight'', ''Issue Date'', ''Expiration'',
             ''Class'']
      \<and> distinct (te_extractedLabels r)
      \<and> sorted (te_extractedLabels r)"
proof -
  let ?r = "case extractTextLabels_try env svc imageFile of
              Inl e \<Rightarrow> extractionFailure | Inr r \<Rightarrow> r"
  have r: "extractTextLabels env svc imageFile = Inr ?r"
    by (rule extractTextLabels_catch)
  have inv: "dom (te_extractedData ?r) \<subseteq> set (te_extractedLabels ?r)
      \<and> set (te_extractedLabels ?r) \<subseteq> set (map fst labelPatterns)
      \<and> distinct (te_extractedLabels ?r) \<and> sorted (te_extractedLabels ?r)"
  proof (cases "extractTextLabels_try env svc imageFile")
    case (Inl e)
    then show ?thesis by (simp add: extractionFailure_def)
  next
    case (Inr x)
    then obtain data where "x = extractFromData env data"
      unfolding extractTextLabels_try_def by (auto split: option.splits sum.splits)
    then show ?thesis
      unfolding Inr using extractFromData_inv[of env data] by simp
  qed
  note i1 = inv[THEN conjunct1]
  note i2 = inv[THEN conjunct2, THEN conjunct1]
  note i3 = inv[THEN conjunct2, THEN conjunct2, THEN conjunct1]
  note i4 = inv[THEN conjunct2, THEN conjunct2, THEN conjunct2]
  note i5 = i2[unfolded canonical_labels]
  show ?thesis
    by (rule exI[of _ ?r]) (intro conjI r i1 i3 i4 i5 canonical_labels)
qed

subsection \<open>C10: failures of a started run\<close>

text \<open>
  C10, as amended. Once the entry check has passed, whatever the \<^verbatim>\<open>try\<close> block throws
  is thrown again as one \<^verbatim>\<open>Error\<close> whose message starts with \<^verbatim>\<open>Verification failed: \<close>.
  What follows the prefix is the message of the thrown value when that value is an
  \<^verbatim>\<open>Error\<close>, and \<^verbatim>\<open>Unknown error\<close> when it is anything else. The rejection of the
  quality gate is thrown again with the gate's message after the prefix.
\<close>

theorem failures_are_rewrapped:
  assumes "verifyDocument_guard svc = None"
  shows "(verifyDocument_try env svc idImageFile referenceImageFile onProgress = (notes, Inl error)
           \<longrightarrow> verifyDocument env svc idImageFile referenceImageFile onProgress
               = (notes, Inl (Error (''Verification failed: '' @
                    (case error of Error m \<Rightarrow> m | NotAnError \<Rightarrow> ''Unknown error'')))))
       \<and> (loadImageFromFile env idImageFile = Inr img
            \<and> canvasPixels env img analysisSize = Inr data \<and> lowEdgeRatio data
           \<longrightarrow> verifyDocument env svc idImageFile referenceImageFile onProgress
               = (onProgressCall onProgress ''Validating image quality...'' 5,
                  Inl (Error (''Verification failed: '' @ lowQualityMessage))))
       \<and> (\<forall>e. snd (verifyDocument env svc idImageFile referenceImageFile onProgress) = Inl e
           \<longrightarrow> (\<exists>m. e = Error (''Verification failed: '' @ m)))"
proof -
  note started = verifyDocument_started[OF assms, of env idImageFile referenceImageFile onProgress]
  have a: "verifyDocument env svc idImageFile referenceImageFile onProgress
      = (notes, Inl (Error (''Verification failed: '' @
           (case error of Error m \<Rightarrow> m | NotAnError \<Rightarrow> ''Unknown error''))))"
    if "verifyDocument_try env svc idImageFile referenceImageFile onProgress = (notes, Inl error)"
    unfolding started that by (simp add: errorMessage_def)
  have b: "verifyDocument env svc idImageFile referenceImageFile onProgress
      = (onProgressCall onProgress ''Validating image quality...'' 5,
         Inl (Error (''Verification failed: '' @ lowQualityMessage)))"
    if "loadImageFromFile env idImageFile = Inr img
        \<and> canvasPixels env img analysisSize = Inr data \<and> lowEdgeRatio data"
  proof -
    have "validateImageQuality env idImageFile = Inl (Error lowQualityMessage)"
      using that by (simp add: validateImageQuality_data[of env idImageFile img data])
    then show ?thesis
      unfolding started by (simp add: verifyDocument_try_low_quality errorMessage_def)
  qed
  have c: "\<exists>m. e = Error (''Verification failed: '' @ m)"
    if "snd (verifyDocument env svc idImageFile referenceImageFile onProgress) = Inl e" for e
    using that unfolding started by (auto split: prod.splits sum.splits)
  show ?thesis
    using a b c by blast
qed

text \<open>A started run on the flat square, which the quality gate rejects.\<close>

theorem failures_are_rewrapped_witness:
  "verifyDocument_guard (stubService (Inr sampleData)) = None
   \<and> loadImageFromFile (stubEnv (Inr stubImage) flatImage (Inr 1)) () = Inr stubImage
   \<and> canvasPixels (stubEnv (Inr stubImage) flatImage (Inr 1)) stubImage analysisSize = Inr flatImage
   \<and> lowEdgeRatio flatImage
   \<and> verifyDocument_try (stubEnv (Inr stubImage) flatImage (Inr 1)) (stubService (Inr sampleData))
        () () True
      = ([(''Validating image quality...'', 5)], Inl (Error lowQualityMessage))
   \<and> verifyDocument (stubEnv (Inr stubImage) flatImage (Inr 1)) (stubService (Inr sampleData))
        () () True
      = ([(''Validating image quality...'', 5)],
         Inl (Error (''Verification failed: '' @ lowQualityMessage)))"
proof -
  let ?env = "stubEnv (Inr stubImage) flatImage (Inr 1)"
  let ?svc = "stubService (Inr sampleData)"
  have g: "verifyDocument_guard ?svc = None" by (rule stub_guard)
  have l: "loadImageFromFile ?env () = Inr stubImage" by (rule stub_load)
  have p: "canvasPixels ?env stubImage analysisSize = Inr flatImage"
    by (simp add: stubEnv_simps)
  have v: "validateImageQuality ?env () = Inl (Error lowQualityMessage)"
    unfolding validate_stub using edgeRatio_flatImage by simp
  have t: "verifyDocument_try ?env ?svc () () True
      = ([(''Validating image quality...'', 5)], Inl (Error lowQualityMessage))"
    unfolding verifyDocument_try_low_quality[OF v] by (simp add: onProgressCall_def)
  from failures_are_rewrapped[OF g, of ?env "()" "()" True _ _ stubImage flatImage]
    l p edgeRatio_flatImage
  have "verifyDocument ?env ?svc () () True
      = (onProgressCall True ''Validating image quality...'' 5,
         Inl (Error (''Verification failed: '' @ lowQualityMessage)))"
    by blast
  then have r: "verifyDocument ?env ?svc () () True
      = ([(''Validating image quality...'', 5)],
         Inl (Error (''Verification failed: '' @ lowQualityMessage)))"
    by (simp add: onProgressCall_def)
  show ?thesis
    using g l p edgeRatio_flatImage t r by blast
qed

text \<open>
  C10 as stated fails on a file that does not decode: \<^verbatim>\<open>img.onerror = reject\<close> rejects
  with the event, which is no \<^verbatim>\<open>Error\<close> and has no message, and the caller receives
  \<^verbatim>\<open>Verification failed: Unknown error\<close>.
\<close>

theorem undecodable_image_counterexample:
  "verifyDocument_guard (stubService (Inr sampleData)) = None
   \<and> loadImageFromFile (stubEnv (Inl NotAnError) flatImage (Inr 1)) () = Inl NotAnError
   \<and> verifyDocument_try (stubEnv (Inl NotAnError) flatImage (Inr 1)) (stubService (Inr sampleData))
        () () True
      = ([(''Validating image quality...'', 5)], Inl NotAnError)
   \<and> verifyDocument (stubEnv (Inl NotAnError) flatImage (Inr 1)) (stubService (Inr sampleData))
        () () True
      = ([(''Validating image quality...'', 5)], Inl (Error ''Verification failed: Unknown error''))"
proof -
  let ?env = "stubEnv (Inl NotAnError) flatImage (Inr 1)"
  let ?svc = "stubService (Inr sampleData)"
  have g: "verifyDocument_guard ?svc = None" by (rule stub_guard)
  have l: "loadImageFromFile ?env () = Inl NotAnError" by (rule stub_load)
  have v: "validateImageQuality ?env () = Inl NotAnError"
    unfolding validateImageQuality_def l by simp
  have t: "verifyDocument_try ?env ?svc () () True
      = ([(''Validating image quality...'', 5)], Inl NotAnError)"
    unfolding verifyDocument_try_low_quality[OF v] by (simp add: onProgressCall_def)
  have r: "verifyDocument ?env ?svc () () True
      = ([(''Validating image quality...'', 5)], Inl (Error ''Verification failed: Unknown error''))"
    unfolding verifyDocument_started[OF g] t by (simp add: errorMessage_def)
  show ?thesis
    using g l t r by blast
qed

end
